theory Spec2Isabelle
  imports Main "HOL-Library.AList"
begin

section \<open>Values of the host language\<close>

text \<open>
  The container of \<^verbatim>\<open>src/core/container.ts\<close> is dynamically typed where it matters: a
  registration is whatever was stored under a token, and \<^verbatim>\<open>resolve\<close> tells a factory from
  a plain value by looking at the \<^verbatim>\<open>dependencies\<close> property. The model therefore keeps
  run-time values.

  Values are undefined, null, booleans, numbers, strings, functions and objects. An object
  has an identity and string-keyed properties. Symbols and arrays occur as property values
  only: a token, and a list of tokens (a descriptor's dependency list). A function is either
  a user function, named by an index into the environment, or the closure returned by
  \<^verbatim>\<open>defineSingleton\<close>, which holds the address of its private \<^verbatim>\<open>instance\<close> variable and
  the function it wraps.
\<close>

text \<open>
  Modelled from the spec: the token type \<^verbatim>\<open>DIToken\<close> of \<^verbatim>\<open>@fioc/core\<close>, which is not among
  the sources. The spec has it as an opaque key with a display name for error messages; the
  code reads that name with \<^verbatim>\<open>Symbol.keyFor\<close>, so a token is a symbol of the global registry
  (\<^verbatim>\<open>Symbol.for(key)\<close>) and \<open>keyFor\<close> gives its key back.
\<close>

datatype DIToken = Symbol string

fun keyFor :: "DIToken \<Rightarrow> string" where
  "keyFor (Symbol k) = k"

datatype jsval =
    Undefined
  | Null
  | Bool bool
  | Num int
  | Str string
  | UserFn nat
  | SingletonFn nat field
  | Obj nat "(string \<times> field) list"
and field =
    Val jsval
  | Tok DIToken
  | Deps "DIToken list"

text \<open>
  The errors the code throws. The first four are \<^verbatim>\<open>new Error(message)\<close> with the messages
  \<^item> \<^verbatim>\<open>Factory must be an object. Got ${value} instead\<close>,
  \<^item> \<^verbatim>\<open>Token Symbol(${Symbol.keyFor(token)}) already registered\<close>,
  \<^item> \<^verbatim>\<open>Dependency Symbol(${Symbol.keyFor(dep)}) not registered\<close>,
  \<^item> \<^verbatim>\<open>Could not Resolve: Token Symbol(${Symbol.keyFor(token)}) not found\<close>;
  each constructor carries what the message interpolates. \<open>TypeError\<close> is the error of the
  engine (a property of undefined or null, a call of something that is no function, a loop
  over something that is not iterable); \<open>Thrown\<close> is an exception of user code.
\<close>

datatype error =
    FactoryMustBeObject jsval
  | AlreadyRegistered DIToken
  | DependencyNotRegistered DIToken
  | TokenNotFound DIToken
  | TypeError
  | Thrown jsval

fun message :: "error \<Rightarrow> string option" where
  "message (AlreadyRegistered t) = Some (''Token Symbol('' @ keyFor t @ '') already registered'')"
| "message (DependencyNotRegistered t) = Some (''Dependency Symbol('' @ keyFor t @ '') not registered'')"
| "message (TokenNotFound t) =
     Some (''Could not Resolve: Token Symbol('' @ keyFor t @ '') not found'')"
| "message _ = None"

datatype scope = Transient | Singleton | Scoped

fun scope_name :: "scope \<Rightarrow> string" where
  "scope_name Transient = ''transient''"
| "scope_name Singleton = ''singleton''"
| "scope_name Scoped = ''scoped''"

fun typeof :: "jsval \<Rightarrow> string" where
  "typeof Undefined = ''undefined''"
| "typeof Null = ''object''"
| "typeof (Bool b) = ''boolean''"
| "typeof (Num n) = ''number''"
| "typeof (Str s) = ''string''"
| "typeof (UserFn i) = ''function''"
| "typeof (SingletonFn c f) = ''function''"
| "typeof (Obj a ps) = ''object''"

fun truthy :: "jsval \<Rightarrow> bool" where
  "truthy Undefined = False"
| "truthy Null = False"
| "truthy (Bool b) = b"
| "truthy (Num n) = (n \<noteq> 0)"
| "truthy (Str s) = (s \<noteq> [])"
| "truthy _ = True"

fun truthy_prop :: "field \<Rightarrow> bool" where
  "truthy_prop (Val v) = truthy v"
| "truthy_prop _ = True"

fun nullish :: "jsval \<Rightarrow> bool" where
  "nullish Undefined = True"
| "nullish Null = True"
| "nullish _ = False"

text \<open>
  Reading a property \<^verbatim>\<open>v.name\<close>, for the names the container reads (\<^verbatim>\<open>dependencies\<close>,
  \<^verbatim>\<open>factory\<close>, \<^verbatim>\<open>scope\<close>, \<^verbatim>\<open>token\<close>), none of which a built-in prototype defines: it
  throws on undefined and null, finds an own property of an object, and is undefined
  everywhere else.
\<close>

fun get_prop :: "jsval \<Rightarrow> string \<Rightarrow> error + field" where
  "get_prop Undefined name = Inl TypeError"
| "get_prop Null name = Inl TypeError"
| "get_prop (Obj a ps) name =
     (case map_of ps name of None \<Rightarrow> Inr (Val Undefined) | Some p \<Rightarrow> Inr p)"
| "get_prop _ name = Inr (Val Undefined)"

text \<open>
  The spread \<^verbatim>\<open>{...v}\<close> of a value whose \<^verbatim>\<open>typeof\<close> is \<^verbatim>\<open>"object"\<close>: the own properties
  of an object, nothing for null.
\<close>

fun spread :: "jsval \<Rightarrow> (string \<times> field) list" where
  "spread (Obj a ps) = ps"
| "spread _ = []"

section \<open>The world: closures' variables, fresh addresses, user code\<close>

text \<open>
  What the program can change besides the values it returns:
  \<^item> \<open>cells\<close>: the \<^verbatim>\<open>instance\<close> variable of each closure made by \<^verbatim>\<open>defineSingleton\<close>;
  \<^item> \<open>next_ref\<close>: the next fresh address (for such a variable, or for a new object);
  \<^item> \<open>invocations\<close>: the user functions called so far, with their arguments, in order
    (nothing reads it: it makes calls observable);
  \<^item> \<open>user\<close>: the state of user code, which its functions may read and change.
  A user function gets its positional arguments and the user state, and returns or throws.
  It has no access to the closures' variables, it does not call back into the container,
  and it always comes back. The properties of objects do not change once the objects exist.
\<close>

record 'u world =
  cells :: "nat \<Rightarrow> jsval"
  next_ref :: nat
  invocations :: "(nat \<times> jsval list) list"
  user :: 'u

type_synonym 'u env = "nat \<Rightarrow> jsval list \<Rightarrow> 'u \<Rightarrow> (error + jsval) \<times> 'u"

type_synonym 'u outcome = "(error + jsval) \<times> 'u world"

text \<open>
  \<^verbatim>\<open>
  function defineSingleton(fn) {
    let instance;
    return (...args) => {
      instance ??= fn(...args);
      return instance;
    };
  }
  \<close>
\<close>

definition defineSingleton :: "field \<Rightarrow> 'u world \<Rightarrow> jsval \<times> 'u world" where
  "defineSingleton fn w =
     (SingletonFn (next_ref w) fn,
      w\<lparr>cells := (cells w)(next_ref w := Undefined), next_ref := Suc (next_ref w)\<rparr>)"

text \<open>Calling a value \<open>f(...args)\<close>.\<close>

fun call :: "'u env \<Rightarrow> field \<Rightarrow> jsval list \<Rightarrow> 'u world \<Rightarrow> 'u outcome" where
  "call env (Val (UserFn i)) args w =
     (case env i args (user w) of
        (r, u') \<Rightarrow> (r, w\<lparr>invocations := invocations w @ [(i, args)], user := u'\<rparr>))"
| "call env (Val (SingletonFn c fn)) args w =
     (if nullish (cells w c) then
        (case call env fn args w of
           (Inl e, w') \<Rightarrow> (Inl e, w')
         | (Inr r, w') \<Rightarrow> (Inr r, w'\<lparr>cells := (cells w')(c := r)\<rparr>))
      else (Inr (cells w c), w))"
| "call env _ args w = (Inl TypeError, w)"

section \<open>The container state and the builder\<close>

text \<open>
  The container state is a plain object keyed by tokens. The model keeps its symbol-keyed
  properties: a map from tokens to the values stored under them. \<^verbatim>\<open>token in containerState\<close>
  is membership in the domain. Every builder closes over one state; an operation returns
  the state of the builder it creates, or throws.

  \<^verbatim>\<open>
  merge(stateToMerge) {
    return buildStrictDIContainer({ ...containerState, ...stateToMerge });
  }
  replace(token, value) {
    const newState = produce(containerState, (draft) => { draft[token] = value; return draft; });
    return buildStrictDIContainer(newState);
  }
  register(token, value) {
    if (token in containerState)
      throw new Error(`Token Symbol(${Symbol.keyFor(token)}) already registered`);
    return diContainer.replace(token, value);
  }
  \<close>
\<close>

type_synonym state = "DIToken \<Rightarrow> jsval option"

text \<open>
  Modelled from the spec: \<^verbatim>\<open>produce\<close> of the library immer, which is not among the sources.
  The spec describes it as a copy-on-write update: it returns a new state that differs from
  the old one by what the recipe assigns, and never changes the old one; when the recipe
  throws, so does \<^verbatim>\<open>produce\<close> and no state is made. Below, a recipe's assignment
  \<^verbatim>\<open>draft[token] = x\<close> is the map update of the state.
\<close>

definition merge :: "state \<Rightarrow> state \<Rightarrow> state" where
  "merge containerState stateToMerge = containerState ++ stateToMerge"

definition replace :: "state \<Rightarrow> DIToken \<Rightarrow> jsval \<Rightarrow> state" where
  "replace containerState token v = containerState(token \<mapsto> v)"

definition register :: "state \<Rightarrow> DIToken \<Rightarrow> jsval \<Rightarrow> error + state" where
  "register containerState token v =
     (if token \<in> dom containerState then Inl (AlreadyRegistered token)
      else Inr (replace containerState token v))"

text \<open>
  \<^verbatim>\<open>
  replaceFactory(token, value, scope = "transient") {
    if (typeof value !== "object") {
      throw new Error(`Factory must be an object. Got ${value} instead`);
    }
    const newState = produce(containerState, (draft) => {
      const val =
        scope === "singleton"
          ? { ...value, factory: defineSingleton(value.factory) }
          : value;
      draft[token] = { ...val, scope };
      return draft;
    });
    return buildStrictDIContainer(newState);
  }
  \<close>
  The object stored is a new one; its identity is the next fresh address.
\<close>

definition new_object :: "(string \<times> field) list \<Rightarrow> 'u world \<Rightarrow> jsval \<times> 'u world" where
  "new_object ps w = (Obj (next_ref w) ps, w\<lparr>next_ref := Suc (next_ref w)\<rparr>)"

definition replaceFactory ::
  "state \<Rightarrow> DIToken \<Rightarrow> jsval \<Rightarrow> scope \<Rightarrow> 'u world \<Rightarrow> (error + state) \<times> 'u world" where
  "replaceFactory containerState token v sc w =
     (if typeof v \<noteq> ''object'' then (Inl (FactoryMustBeObject v), w)
      else if sc = Singleton then
        (case get_prop v ''factory'' of
           Inl e \<Rightarrow> (Inl e, w)
         | Inr fn \<Rightarrow>
             (case defineSingleton fn w of
                (g, w1) \<Rightarrow>
                  (case new_object
                          (AList.update ''scope'' (Val (Str (scope_name sc)))
                             (AList.update ''factory'' (Val g) (spread v))) w1 of
                     (ob, w2) \<Rightarrow> (Inr (containerState(token \<mapsto> ob)), w2))))
      else
        (case new_object (AList.update ''scope'' (Val (Str (scope_name sc))) (spread v)) w of
           (ob, w1) \<Rightarrow> (Inr (containerState(token \<mapsto> ob)), w1)))"

text \<open>
  \<^verbatim>\<open>
  registerFactory(token, value, scope = "transient") {
    if (typeof value !== "object" || !value) {
      throw new Error(`Factory must be an object. Got ${value} instead`);
    }
    const { dependencies } = value;
    if (token in containerState) {
      throw new Error(`Token Symbol(${Symbol.keyFor(token)}) already registered`);
    }
    // Verify all dependencies are registered
    for (const dep of dependencies) {
      if (!(dep in containerState)) {
        throw new Error(`Dependency Symbol(${Symbol.keyFor(dep)}) not registered`);
      }
    }
    return diContainer.replaceFactory(token, value, scope);
  }
  \<close>
  The loop runs over a list of tokens. Of the other values \<^verbatim>\<open>dependencies\<close> can be, only
  a string is iterable: the empty string gives no iteration, and a character of a longer
  one makes \<^verbatim>\<open>Symbol.keyFor\<close> throw a TypeError; so does the loop itself over anything
  else.
\<close>

primrec verify_dependencies :: "state \<Rightarrow> DIToken list \<Rightarrow> error option" where
  "verify_dependencies containerState [] = None"
| "verify_dependencies containerState (dep # deps) =
     (if dep \<notin> dom containerState then Some (DependencyNotRegistered dep)
      else verify_dependencies containerState deps)"

definition registerFactory ::
  "state \<Rightarrow> DIToken \<Rightarrow> jsval \<Rightarrow> scope \<Rightarrow> 'u world \<Rightarrow> (error + state) \<times> 'u world" where
  "registerFactory containerState token v sc w =
     (if typeof v \<noteq> ''object'' \<or> \<not> truthy v then (Inl (FactoryMustBeObject v), w)
      else
        (case get_prop v ''dependencies'' of
           Inl e \<Rightarrow> (Inl e, w)
         | Inr dependencies \<Rightarrow>
             if token \<in> dom containerState then (Inl (AlreadyRegistered token), w)
             else
               (case dependencies of
                  Deps deps \<Rightarrow>
                    (case verify_dependencies containerState deps of
                       Some e \<Rightarrow> (Inl e, w)
                     | None \<Rightarrow> replaceFactory containerState token v sc w)
                | Val (Str []) \<Rightarrow> replaceFactory containerState token v sc w
                | _ \<Rightarrow> (Inl TypeError, w))))"

text \<open>
  \<^verbatim>\<open>
  replaceFactoryArray(values) {
    const newState = produce(containerState, (draft) => {
      values.forEach((value) => { draft[value.token] = value; });
      return draft;
    });
    return buildStrictDIContainer(newState);
  }
  \<close>
  When \<^verbatim>\<open>value.token\<close> is not a token, the assignment converts it to a string key: it
  throws on a non-empty list of tokens (a symbol has no string conversion) and otherwise
  sets a string-keyed property, which no token ever reads and the model does not keep.
\<close>

primrec forEach_install :: "state \<Rightarrow> jsval list \<Rightarrow> error + state" where
  "forEach_install draft [] = Inr draft"
| "forEach_install draft (v # vs) =
     (case get_prop v ''token'' of
        Inl e \<Rightarrow> Inl e
      | Inr (Tok token) \<Rightarrow> forEach_install (draft(token \<mapsto> v)) vs
      | Inr (Deps (d # ds)) \<Rightarrow> Inl TypeError
      | Inr _ \<Rightarrow> forEach_install draft vs)"

definition replaceFactoryArray :: "state \<Rightarrow> jsval list \<Rightarrow> error + state" where
  "replaceFactoryArray containerState vs = forEach_install containerState vs"

section \<open>The container: resolve and createScope\<close>

text \<open>
  \<^verbatim>\<open>
  resolve: (toResolve) => {
    const token = toResolve;
    if (!(token in containerState))
      throw new Error(`Could not Resolve: Token Symbol(${Symbol.keyFor(token)}) not found`);
    const state = containerState[token];
    if (!state.dependencies) {
      return state;
    }
    return state.factory(
      ...state.dependencies.map((dep) => diContainer.resolve(dep))
    );
  }
  \<close>
  \<^verbatim>\<open>resolve\<close> calls itself for every dependency and nothing bounds the depth, so the model
  takes the depth allowed as its first numeric argument and returns \<open>None\<close> when the
  recursion would go deeper: a cycle of factories gives \<open>None\<close> at every depth (the
  engine ends such a recursion when its stack is exhausted).
  \<^verbatim>\<open>map\<close> exists on a list only; on any other truthy value the call of \<^verbatim>\<open>map\<close> is a
  TypeError (an object with a \<^verbatim>\<open>map\<close> method of its own is not modelled). The callee
  \<^verbatim>\<open>state.factory\<close> is checked after the arguments are evaluated.
\<close>

primrec map_resolve ::
  "(DIToken \<Rightarrow> 'u world \<Rightarrow> 'u outcome option) \<Rightarrow> DIToken list \<Rightarrow> 'u world
     \<Rightarrow> ((error + jsval list) \<times> 'u world) option" where
  "map_resolve r [] w = Some (Inr [], w)"
| "map_resolve r (dep # deps) w =
     (case r dep w of
        None \<Rightarrow> None
      | Some (Inl e, w1) \<Rightarrow> Some (Inl e, w1)
      | Some (Inr x, w1) \<Rightarrow>
          (case map_resolve r deps w1 of
             None \<Rightarrow> None
           | Some (Inl e, w2) \<Rightarrow> Some (Inl e, w2)
           | Some (Inr xs, w2) \<Rightarrow> Some (Inr (x # xs), w2)))"

primrec resolve :: "'u env \<Rightarrow> state \<Rightarrow> nat \<Rightarrow> DIToken \<Rightarrow> 'u world \<Rightarrow> 'u outcome option" where
  "resolve env containerState 0 = (\<lambda>token w. None)"
| "resolve env containerState (Suc n) = (\<lambda>token w.
     (case containerState token of
        None \<Rightarrow> Some (Inl (TokenNotFound token), w)
      | Some st \<Rightarrow>
          (case get_prop st ''dependencies'' of
             Inl e \<Rightarrow> Some (Inl e, w)
           | Inr dependencies \<Rightarrow>
               if \<not> truthy_prop dependencies then Some (Inr st, w)
               else
                 (case get_prop st ''factory'' of
                    Inl e \<Rightarrow> Some (Inl e, w)
                  | Inr factory \<Rightarrow>
                      (case dependencies of
                         Deps deps \<Rightarrow>
                           (case map_resolve (resolve env containerState n) deps w of
                              None \<Rightarrow> None
                            | Some (Inl e, w1) \<Rightarrow> Some (Inl e, w1)
                            | Some (Inr args, w1) \<Rightarrow> Some (call env factory args w1))
                       | _ \<Rightarrow> Some (Inl TypeError, w))))))"

text \<open>
  \<^verbatim>\<open>
  createScope(callback) {
    const instances = {};
    const scopedResolve = (token) => {
      if (token in instances) return instances[token];
      const resolved = diContainer.resolve(token);
      if (diContainer.getState()[token]?.["scope"] === "scoped")
        instances[token] = resolved;
      return resolved;
    };
    callback(scopedResolve);
  }
  \<close>
  \<open>scopedResolve\<close> takes the cache \<^verbatim>\<open>instances\<close> it closes over and returns it updated.
\<close>

type_synonym instances = "DIToken \<Rightarrow> jsval option"

definition registered_scope :: "state \<Rightarrow> DIToken \<Rightarrow> field" where
  "registered_scope containerState token =
     (case containerState token of
        None \<Rightarrow> Val Undefined
      | Some st \<Rightarrow>
          if nullish st then Val Undefined
          else (case get_prop st ''scope'' of Inl e \<Rightarrow> Val Undefined | Inr p \<Rightarrow> p))"

definition scopedResolve ::
  "'u env \<Rightarrow> state \<Rightarrow> nat \<Rightarrow> DIToken \<Rightarrow> instances \<Rightarrow> 'u world
     \<Rightarrow> ((error + jsval) \<times> instances \<times> 'u world) option" where
  "scopedResolve env containerState n token insts w =
     (case insts token of
        Some x \<Rightarrow> Some (Inr x, insts, w)
      | None \<Rightarrow>
          (case resolve env containerState n token w of
             None \<Rightarrow> None
           | Some (Inl e, w1) \<Rightarrow> Some (Inl e, insts, w1)
           | Some (Inr resolved, w1) \<Rightarrow>
               Some (Inr resolved,
                     (if registered_scope containerState token = Val (Str ''scoped'')
                      then insts(token \<mapsto> resolved) else insts),
                     w1)))"

text \<open>
  The callback is user code. What it can do with the container is call the scoped resolver
  it is given, or the container's own \<^verbatim>\<open>resolve\<close>, see what comes back (a value or an
  exception it catches), and go on; in the end it has recorded something (\<open>Done\<close>) or lets
  an exception escape (\<open>Raise\<close>).
\<close>

datatype 'a callback =
    Done 'a
  | Raise error
  | CallScoped DIToken "error + jsval \<Rightarrow> 'a callback"
  | CallResolve DIToken "error + jsval \<Rightarrow> 'a callback"

primrec run_callback ::
  "'u env \<Rightarrow> state \<Rightarrow> nat \<Rightarrow> 'a callback \<Rightarrow> instances \<Rightarrow> 'u world
     \<Rightarrow> ((error + 'a) \<times> 'u world) option" where
  "run_callback env containerState n (Done a) = (\<lambda>insts w. Some (Inr a, w))"
| "run_callback env containerState n (Raise e) = (\<lambda>insts w. Some (Inl e, w))"
| "run_callback env containerState n (CallScoped token k) = (\<lambda>insts w.
     (case scopedResolve env containerState n token insts w of
        None \<Rightarrow> None
      | Some (r, insts1, w1) \<Rightarrow> run_callback env containerState n (k r) insts1 w1))"
| "run_callback env containerState n (CallResolve token k) = (\<lambda>insts w.
     (case resolve env containerState n token w of
        None \<Rightarrow> None
      | Some (r, w1) \<Rightarrow> run_callback env containerState n (k r) insts w1))"

definition createScope ::
  "'u env \<Rightarrow> state \<Rightarrow> nat \<Rightarrow> 'a callback \<Rightarrow> 'u world \<Rightarrow> ((error + 'a) \<times> 'u world) option" where
  "createScope env containerState n callback w =
     run_callback env containerState n callback Map.empty w"

section \<open>Auxiliary notions\<close>

text \<open>
  \<open>enough containerState n token\<close>: the depth \<open>n\<close> covers the graph of dependency lists
  below \<open>token\<close>. It does not look at the world: it is a property of the state alone.
\<close>

primrec enough :: "state \<Rightarrow> nat \<Rightarrow> DIToken \<Rightarrow> bool" where
  "enough cs 0 = (\<lambda>t. False)"
| "enough cs (Suc n) = (\<lambda>t.
     (case cs t of
        None \<Rightarrow> True
      | Some st \<Rightarrow>
          (case get_prop st ''dependencies'' of
             Inr (Deps deps) \<Rightarrow> list_all (enough cs n) deps
           | _ \<Rightarrow> True)))"

section \<open>An example container\<close>

text \<open>
  The container of the test suite: a value under \<^verbatim>\<open>RepoA\<close> and a factory under
  \<^verbatim>\<open>factoryC\<close> that depends on it. User functions make a new object on every call: the
  user state counts them and gives each its identity.
\<close>

definition world0 :: "nat world" where
  "world0 = \<lparr>cells = (\<lambda>c. Undefined), next_ref = 0, invocations = [], user = 0\<rparr>"

definition demo_env :: "nat env" where
  "demo_env i args u = (Inr (Obj (100 + u) (map (\<lambda>x. (''arg'', Val x)) args)), Suc u)"

definition repoA :: jsval where
  "repoA = Obj 1 [(''name'', Val (Str ''A''))]"

definition demo_state :: state where
  "demo_state =
     [Symbol ''RepoA'' \<mapsto> repoA,
      Symbol ''factoryC'' \<mapsto>
        Obj 2 [(''dependencies'', Deps [Symbol ''RepoA'']), (''factory'', Val (UserFn 0)),
               (''scope'', Val (Str ''transient''))]]"

text \<open>
  Two factory descriptors for the example container: the dependencies of the first are all
  registered there, the second names two that are not. \<open>configValue\<close> and \<open>lookalike\<close>
  are plain values that happen to have the shape of a descriptor.
\<close>

definition descriptorD :: jsval where
  "descriptorD = Obj 3 [(''dependencies'', Deps [Symbol ''RepoA'', Symbol ''factoryC'']),
                        (''factory'', Val (UserFn 1))]"

definition descriptorE :: jsval where
  "descriptorE = Obj 4 [(''dependencies'', Deps [Symbol ''RepoA'', Symbol ''RepoB'', Symbol ''RepoZ'']),
                        (''factory'', Val (UserFn 2))]"

definition configValue :: jsval where
  "configValue = Obj 10 [(''name'', Val (Str ''config'')), (''dependencies'', Deps [Symbol ''RepoA'']),
                         (''factory'', Val (UserFn 0))]"

definition lookalike :: jsval where
  "lookalike = Obj 9 [(''dependencies'', Deps []), (''factory'', Val (UserFn 0))]"

section \<open>Worlds over time\<close>

text \<open>
  \<open>later w w'\<close>: every closure variable that holds a value other than undefined and null
  in \<open>w\<close> holds the same value in \<open>w'\<close>. It is what every step of a container guarantees
  (lemma \<open>resolve_later\<close> below), so it relates a world to all worlds that come after it.
\<close>

definition later :: "'u world \<Rightarrow> 'u world \<Rightarrow> bool" where
  "later w w' = (\<forall>c. \<not> nullish (cells w c) \<longrightarrow> cells w' c = cells w c)"

text \<open>
  A factory that returns undefined, installed as a singleton; and the example container
  extended by a singleton factory \<^verbatim>\<open>factoryD\<close>, with the instances its factories make and
  the world after its first resolution.
\<close>

definition void_env :: "nat env" where
  "void_env i args u = (Inr Undefined, Suc u)"

definition descriptorV :: jsval where
  "descriptorV = Obj 6 [(''dependencies'', Deps []), (''factory'', Val (UserFn 0))]"

definition void_state :: state where
  "void_state =
     [Symbol ''T'' \<mapsto>
        Obj 1 [(''dependencies'', Deps []), (''factory'', Val (SingletonFn 0 (Val (UserFn 0)))),
               (''scope'', Val (Str ''singleton''))]]"

definition singleton_state :: state where
  "singleton_state =
     demo_state(Symbol ''factoryD'' \<mapsto>
       Obj 1 [(''dependencies'', Deps [Symbol ''RepoA'', Symbol ''factoryC'']),
              (''factory'', Val (SingletonFn 0 (Val (UserFn 1)))),
              (''scope'', Val (Str ''singleton''))])"

definition instanceC :: jsval where
  "instanceC = Obj 100 [(''arg'', Val repoA)]"

definition instanceD :: jsval where
  "instanceD = Obj 101 [(''arg'', Val repoA), (''arg'', Val instanceC)]"

definition world1 :: "nat world" where
  "world1 = \<lparr>cells = (\<lambda>c. Undefined)(0 := instanceD), next_ref = 2,
             invocations = [(0, [repoA]), (1, [repoA, instanceC])], user = 2\<rparr>"

section \<open>Callbacks with a cached instance, and an example with a scoped factory\<close>

text \<open>
  \<open>answer token x callback\<close> is the callback in which every call of the scoped resolver
  for \<open>token\<close> is replaced by its continuation at the answer \<open>x\<close>.
\<close>

primrec answer :: "DIToken \<Rightarrow> jsval \<Rightarrow> 'a callback \<Rightarrow> 'a callback" where
  "answer token x (Done a) = Done a"
| "answer token x (Raise e) = Raise e"
| "answer token x (CallScoped token' k) =
     (if token' = token then answer token x (k (Inr x))
      else CallScoped token' (\<lambda>r. answer token x (k r)))"
| "answer token x (CallResolve token' k) = CallResolve token' (\<lambda>r. answer token x (k r))"

text \<open>
  The example container with a scoped factory \<^verbatim>\<open>factoryS\<close> and a transient factory
  \<^verbatim>\<open>factoryF\<close> that depends on it.
\<close>

definition scoped_state :: state where
  "scoped_state =
     demo_state(
       Symbol ''factoryS'' \<mapsto>
         Obj 0 [(''dependencies'', Deps [Symbol ''RepoA'']), (''factory'', Val (UserFn 2)),
                (''scope'', Val (Str ''scoped''))],
       Symbol ''factoryF'' \<mapsto>
         Obj 1 [(''dependencies'', Deps [Symbol ''factoryS'']), (''factory'', Val (UserFn 3)),
                (''scope'', Val (Str ''transient''))])"

definition instanceS :: "nat \<Rightarrow> jsval" where
  "instanceS i = Obj i [(''arg'', Val repoA)]"

definition worldS :: "nat world" where
  "worldS = world0\<lparr>next_ref := 2, invocations := [(2, [repoA])], user := 1\<rparr>"

definition worldF :: "nat world" where
  "worldF = worldS\<lparr>invocations := [(2, [repoA]), (2, [repoA]), (3, [instanceS 101])], user := 3\<rparr>"

text \<open>
  A factory that returns one shared object at every call, registered with scope
  \<^verbatim>\<open>"scoped"\<close>.
\<close>

definition shared_env :: "nat env" where
  "shared_env i args u = (Inr (Obj 50 [(''name'', Val (Str ''shared''))]), u)"

definition descriptorT :: jsval where
  "descriptorT = Obj 6 [(''dependencies'', Deps []), (''factory'', Val (UserFn 0))]"

definition shared_state :: state where
  "shared_state =
     [Symbol ''T'' \<mapsto>
        Obj 0 [(''dependencies'', Deps []), (''factory'', Val (UserFn 0)),
               (''scope'', Val (Str ''scoped''))]]"

section \<open>The bulk operation as the spec describes it\<close>

text \<open>
  This definition follows the words of the spec, not the code of \<^verbatim>\<open>replaceFactoryArray\<close>:
  \<^verbatim>\<open>replaceFactory\<close> called once per descriptor, in list order, on the builder the previous
  call returned, under the descriptor's own token and with the default scope (the list
  gives none). It is what \<^verbatim>\<open>replaceFactoryArray\<close> is compared with.
\<close>

primrec replaceFactory_each :: "state \<Rightarrow> jsval list \<Rightarrow> 'u world \<Rightarrow> (error + state) \<times> 'u world" where
  "replaceFactory_each cs [] w = (Inr cs, w)"
| "replaceFactory_each cs (v # vs) w =
     (case get_prop v ''token'' of
        Inr (Tok token) \<Rightarrow>
          (case replaceFactory cs token v Transient w of
             (Inl e, w1) \<Rightarrow> (Inl e, w1)
           | (Inr cs1, w1) \<Rightarrow> replaceFactory_each cs1 vs w1)
      | _ \<Rightarrow> (Inl TypeError, w))"

text \<open>
  An entry of the list as its type has it: an object with a token under \<^verbatim>\<open>token\<close>.
  \<open>entry_for token vs\<close> is the last entry of \<open>vs\<close> for \<open>token\<close>, if there is one.
\<close>

fun is_entry :: "jsval \<Rightarrow> bool" where
  "is_entry (Obj a ps) = (case map_of ps ''token'' of Some (Tok token) \<Rightarrow> True | _ \<Rightarrow> False)"
| "is_entry _ = False"

primrec entry_for :: "DIToken \<Rightarrow> jsval list \<Rightarrow> jsval option" where
  "entry_for token [] = None"
| "entry_for token (v # vs) =
     (case entry_for token vs of
        Some x \<Rightarrow> Some x
      | None \<Rightarrow> if get_prop v ''token'' = Inr (Tok token) then Some v else None)"

text \<open>
  Two entries for the example container: one for a token that is registered there, with a
  dependency that is not; one for a new token.
\<close>

definition entryC :: jsval where
  "entryC = Obj 7 [(''token'', Tok (Symbol ''factoryC'')), (''dependencies'', Deps [Symbol ''RepoZ'']),
                   (''factory'', Val (UserFn 4))]"

definition entryD :: jsval where
  "entryD = Obj 8 [(''token'', Tok (Symbol ''factoryD'')), (''dependencies'', Deps [Symbol ''factoryC'']),
                   (''factory'', Val (UserFn 5))]"

section \<open>Builders over a store of state objects\<close>















section \<open>Properties of resolve\<close>

lemma map_resolve_chain:
  assumes "length ws = Suc (length deps)" "length xs = length deps"
    and "\<forall>i<length deps. r (deps ! i) (ws ! i) = Some (Inr (xs ! i), ws ! Suc i)"
  shows "map_resolve r deps (ws ! 0) = Some (Inr xs, ws ! length deps)"
  using assms
proof (induction deps arbitrary: ws xs)
  case Nil
  then show ?case by simp
next
  case (Cons d ds)
  from Cons.prems obtain w0 ws' where ws: "ws = w0 # ws'" "length ws' = Suc (length ds)"
    by (cases ws) auto
  from Cons.prems obtain x xs' where xs: "xs = x # xs'" "length xs' = length ds"
    by (cases xs) auto
  have step: "r d w0 = Some (Inr x, ws' ! 0)"
    using Cons.prems(3) ws xs by (auto dest: spec[of _ 0])
  have rest: "\<forall>i<length ds. r (ds ! i) (ws' ! i) = Some (Inr (xs' ! i), ws' ! Suc i)"
  proof (intro allI impI)
    fix i assume "i < length ds"
    then have "Suc i < length (d # ds)" by simp
    from Cons.prems(3)[rule_format, OF this] show "r (ds ! i) (ws' ! i) = Some (Inr (xs' ! i), ws' ! Suc i)"
      using ws xs by simp
  qed
  have "map_resolve r ds (ws' ! 0) = Some (Inr xs', ws' ! length ds)"
    by (rule Cons.IH[OF ws(2) xs(2) rest])
  with step show ?case using ws xs by simp
qed

lemma map_resolve_total:
  "\<forall>d\<in>set deps. \<forall>w. r d w \<noteq> None \<Longrightarrow> map_resolve r deps w \<noteq> None"
proof (induction deps arbitrary: w)
  case Nil
  then show ?case by simp
next
  case (Cons d ds)
  from Cons.prems obtain r1 w1 where r1: "r d w = Some (r1, w1)" by fastforce
  from Cons.IH Cons.prems have "map_resolve r ds w1 \<noteq> None" by simp
  then obtain r2 w2 where "map_resolve r ds w1 = Some (r2, w2)" by fastforce
  with r1 show ?case by (cases r1; cases r2) auto
qed

lemma resolve_total: "enough cs n t \<Longrightarrow> resolve env cs n t w \<noteq> None"
proof (induction n arbitrary: t w)
  case 0
  then show ?case by simp
next
  case (Suc n)
  show ?case
  proof (cases "cs t")
    case None
    then show ?thesis by simp
  next
    case (Some st)
    show ?thesis
    proof (cases "get_prop st ''dependencies''")
      case (Inl e)
      with Some show ?thesis by simp
    next
      case (Inr p)
      show ?thesis
      proof (cases p)
        case (Deps deps)
        with Suc.prems Some Inr have "list_all (enough cs n) deps" by simp
        then have "\<forall>d\<in>set deps. \<forall>w. resolve env cs n d w \<noteq> None"
          using Suc.IH by (auto simp: list_all_iff)
        then have "map_resolve (resolve env cs n) deps w \<noteq> None"
          by (rule map_resolve_total)
        with Some Inr Deps show ?thesis
          by (auto split: sum.splits option.splits prod.splits)
      qed (use Some Inr in \<open>auto split: sum.splits\<close>)
    qed
  qed
qed

text \<open>
  Claim C1 says that \<^verbatim>\<open>resolve\<close> returns the value directly whenever the token maps to a
  value registration. The state has no tag for that: \<^verbatim>\<open>resolve\<close> reads the
  \<^verbatim>\<open>dependencies\<close> property of what is stored. For a registered null this read throws a
  TypeError, and a registered value that has a list under \<^verbatim>\<open>dependencies\<close> is taken for a
  factory registration: its dependencies are resolved and the function under \<^verbatim>\<open>factory\<close>
  is called, and \<^verbatim>\<open>resolve\<close> returns what that call returns.
\<close>

theorem resolve_value_counterexample:
  "register Map.empty (Symbol ''T'') Null = Inr [Symbol ''T'' \<mapsto> Null]
   \<and> resolve demo_env [Symbol ''T'' \<mapsto> Null] (Suc 0) (Symbol ''T'') world0
       = Some (Inl TypeError, world0)
   \<and> register demo_state (Symbol ''Config'') configValue
       = Inr (demo_state(Symbol ''Config'' \<mapsto> configValue))
   \<and> resolve demo_env (demo_state(Symbol ''Config'' \<mapsto> configValue)) (Suc (Suc 0))
         (Symbol ''Config'') world0
       = Some (Inr (Obj 100 [(''arg'', Val repoA)]),
               world0\<lparr>invocations := [(0, [repoA])], user := 1\<rparr>)
   \<and> Obj 100 [(''arg'', Val repoA)] \<noteq> configValue"
  by (simp add: register_def replace_def configValue_def demo_state_def demo_env_def world0_def
      repoA_def)

text \<open>
  Claim C1, amended. For every state and token, \<^verbatim>\<open>resolve(token)\<close>
  \<^item> throws the error naming the token when the token is not a key of the state;
  \<^item> returns the stored value itself when its \<^verbatim>\<open>dependencies\<close> property can be read and
    is falsy (a value registration that does not have the shape of a descriptor);
  \<^item> for a stored object with a list of tokens under \<^verbatim>\<open>dependencies\<close> (a factory
    registration) resolves the dependency tokens in their declared order, each by a call of
    \<^verbatim>\<open>resolve\<close> in the world the previous one left (\<open>ws ! i\<close>), then calls the factory with
    the resolved values \<open>xs\<close> as positional arguments in that order, and returns what the
    factory returns;
  \<^item> returns (a value or an exception) whenever the depth allowed covers the dependency
    graph below the token.
\<close>

theorem resolve_spec:
  "(containerState token = None \<longrightarrow>
      resolve env containerState (Suc n) token w = Some (Inl (TokenNotFound token), w) \<and>
      message (TokenNotFound token) =
        Some (''Could not Resolve: Token Symbol('' @ keyFor token @ '') not found''))
   \<and> (containerState token = Some v \<and> get_prop v ''dependencies'' = Inr d \<and> \<not> truthy_prop d \<longrightarrow>
      resolve env containerState (Suc n) token w = Some (Inr v, w))
   \<and> (containerState token = Some v \<and> get_prop v ''dependencies'' = Inr (Deps deps) \<and>
      get_prop v ''factory'' = Inr factory \<and>
      length ws = Suc (length deps) \<and> length xs = length deps \<and> ws ! 0 = w \<and>
      (\<forall>i<length deps.
         resolve env containerState n (deps ! i) (ws ! i) = Some (Inr (xs ! i), ws ! Suc i)) \<longrightarrow>
      resolve env containerState (Suc n) token w = Some (call env factory xs (ws ! length deps)))
   \<and> (enough containerState n token \<longrightarrow> (\<exists>r. resolve env containerState n token w = Some r))"
proof (intro conjI impI)
  assume a: "containerState token = Some v \<and> get_prop v ''dependencies'' = Inr (Deps deps) \<and>
      get_prop v ''factory'' = Inr factory \<and>
      length ws = Suc (length deps) \<and> length xs = length deps \<and> ws ! 0 = w \<and>
      (\<forall>i<length deps.
         resolve env containerState n (deps ! i) (ws ! i) = Some (Inr (xs ! i), ws ! Suc i))"
  then have "map_resolve (resolve env containerState n) deps (ws ! 0) = Some (Inr xs, ws ! length deps)"
    by (intro map_resolve_chain) auto
  with a show "resolve env containerState (Suc n) token w = Some (call env factory xs (ws ! length deps))"
    by simp
next
  assume "enough containerState n token"
  then show "\<exists>r. resolve env containerState n token w = Some r"
    using resolve_total by fastforce
qed auto

theorem resolve_spec_witness:
  "resolve demo_env demo_state (Suc 0) (Symbol ''Missing'') world0
     = Some (Inl (TokenNotFound (Symbol ''Missing'')), world0)
   \<and> resolve demo_env demo_state (Suc 0) (Symbol ''RepoA'') world0 = Some (Inr repoA, world0)
   \<and> resolve demo_env demo_state (Suc (Suc 0)) (Symbol ''factoryC'') world0
     = Some (Inr (Obj 100 [(''arg'', Val repoA)]),
             world0\<lparr>invocations := [(0, [repoA])], user := 1\<rparr>)
   \<and> (\<exists>r. resolve demo_env demo_state (Suc (Suc 0)) (Symbol ''factoryC'') world0 = Some r)"
proof -
  have missing: "demo_state (Symbol ''Missing'') = None"
    by (simp add: demo_state_def)
  have val: "demo_state (Symbol ''RepoA'') = Some repoA \<and>
      get_prop repoA ''dependencies'' = Inr (Val Undefined) \<and> \<not> truthy_prop (Val Undefined)"
    by (simp add: demo_state_def repoA_def)
  have fac: "demo_state (Symbol ''factoryC'')
       = Some (Obj 2 [(''dependencies'', Deps [Symbol ''RepoA'']), (''factory'', Val (UserFn 0)),
               (''scope'', Val (Str ''transient''))])"
    by (simp add: demo_state_def)
  have en: "enough demo_state (Suc (Suc 0)) (Symbol ''factoryC'')"
    by (simp add: demo_state_def repoA_def)
  have 1: "resolve demo_env demo_state (Suc 0) (Symbol ''Missing'') world0
     = Some (Inl (TokenNotFound (Symbol ''Missing'')), world0)"
    using resolve_spec[where containerState = demo_state and token = "Symbol ''Missing''"
        and env = demo_env and n = 0 and w = world0] missing by blast
  have 2: "resolve demo_env demo_state (Suc 0) (Symbol ''RepoA'') world0 = Some (Inr repoA, world0)"
    using resolve_spec[where containerState = demo_state and token = "Symbol ''RepoA''"
        and env = demo_env and n = 0 and w = world0 and v = repoA and d = "Val Undefined"] val
    by blast
  have 3: "resolve demo_env demo_state (Suc (Suc 0)) (Symbol ''factoryC'') world0
     = Some (call demo_env (Val (UserFn 0)) [repoA] ([world0, world0] ! length [Symbol ''RepoA'']))"
    using resolve_spec[where containerState = demo_state and token = "Symbol ''factoryC''"
        and env = demo_env and n = "Suc 0" and w = world0 and deps = "[Symbol ''RepoA'']"
        and factory = "Val (UserFn 0)" and ws = "[world0, world0]" and xs = "[repoA]"
        and v = "Obj 2 [(''dependencies'', Deps [Symbol ''RepoA'']), (''factory'', Val (UserFn 0)),
               (''scope'', Val (Str ''transient''))]"] fac 2
    by simp
  have 4: "\<exists>r. resolve demo_env demo_state (Suc (Suc 0)) (Symbol ''factoryC'') world0 = Some r"
    using resolve_spec[where containerState = demo_state and token = "Symbol ''factoryC''"
        and env = demo_env and n = "Suc (Suc 0)" and w = world0] en by blast
  from 3 have r3: "resolve demo_env demo_state (Suc (Suc 0)) (Symbol ''factoryC'') world0
     = Some (Inr (Obj 100 [(''arg'', Val repoA)]),
             world0\<lparr>invocations := [(0, [repoA])], user := 1\<rparr>)"
    by (simp add: demo_env_def world0_def)
  from 1 2 r3 4 show ?thesis by blast
qed

section \<open>Properties of the strict registrations\<close>

lemma verify_dependencies_first:
  "i < length deps \<Longrightarrow> deps ! i \<notin> dom cs \<Longrightarrow> \<forall>j<i. deps ! j \<in> dom cs \<Longrightarrow>
     verify_dependencies cs deps = Some (DependencyNotRegistered (deps ! i))"
proof (induction deps arbitrary: i)
  case Nil
  then show ?case by simp
next
  case (Cons d ds)
  show ?case
  proof (cases i)
    case 0
    with Cons.prems show ?thesis by simp
  next
    case (Suc k)
    with Cons.prems have "d \<in> dom cs" by (auto dest: spec[of _ 0])
    moreover have "verify_dependencies cs ds = Some (DependencyNotRegistered (ds ! k))"
    proof (rule Cons.IH)
      show "k < length ds" using Cons.prems Suc by simp
      show "ds ! k \<notin> dom cs" using Cons.prems Suc by simp
      show "\<forall>j<k. ds ! j \<in> dom cs"
      proof (intro allI impI)
        fix j assume "j < k"
        then have "Suc j < i" using Suc by simp
        with Cons.prems(3) have "(d # ds) ! Suc j \<in> dom cs" by blast
        then show "ds ! j \<in> dom cs" by simp
      qed
    qed
    ultimately show ?thesis using Suc by simp
  qed
qed

lemma verify_dependencies_none:
  "set deps \<subseteq> dom cs \<Longrightarrow> verify_dependencies cs deps = None"
  by (induction deps) auto

lemma verify_dependencies_Some:
  "verify_dependencies cs deps = Some e \<Longrightarrow> \<exists>d\<in>set deps. d \<notin> dom cs \<and> e = DependencyNotRegistered d"
  by (induction deps) (auto split: if_splits)

lemma non_null_object: "typeof v = ''object'' \<Longrightarrow> v \<noteq> Null \<Longrightarrow> \<exists>a ps. v = Obj a ps"
  by (cases v) auto

lemma get_prop_update_same:
  "get_prop (Obj a (AList.update k p ps)) k = Inr p"
  by (simp add: update_conv')

lemma get_prop_update_other:
  "k' \<noteq> k \<Longrightarrow> get_prop (Obj a (AList.update k p ps)) k' = get_prop (Obj b ps) k'"
  by (simp add: update_conv')

lemma replaceFactory_object:
  "replaceFactory cs token (Obj a ps) sc w =
     (if sc = Singleton then
        (Inr (cs(token \<mapsto> Obj (Suc (next_ref w))
               (AList.update ''scope'' (Val (Str (scope_name sc)))
                 (AList.update ''factory''
                    (Val (SingletonFn (next_ref w)
                       (case map_of ps ''factory'' of None \<Rightarrow> Val Undefined | Some p \<Rightarrow> p))) ps)))),
         w\<lparr>cells := (cells w)(next_ref w := Undefined), next_ref := Suc (Suc (next_ref w))\<rparr>)
      else
        (Inr (cs(token \<mapsto> Obj (next_ref w) (AList.update ''scope'' (Val (Str (scope_name sc))) ps))),
         w\<lparr>next_ref := Suc (next_ref w)\<rparr>))"
  by (simp add: replaceFactory_def defineSingleton_def new_object_def split: option.splits)

lemma replaceFactory_object_result:
  "\<exists>ob w'. replaceFactory cs token (Obj a ps) sc w = (Inr (cs(token \<mapsto> ob)), w') \<and>
     get_prop ob ''dependencies'' = get_prop (Obj a ps) ''dependencies'' \<and>
     get_prop ob ''scope'' = Inr (Val (Str (scope_name sc))) \<and>
     (sc \<noteq> Singleton \<longrightarrow> get_prop ob ''factory'' = get_prop (Obj a ps) ''factory'') \<and>
     (sc = Singleton \<longrightarrow>
        (\<exists>fn. get_prop (Obj a ps) ''factory'' = Inr fn \<and>
              get_prop ob ''factory'' = Inr (Val (SingletonFn (next_ref w) fn)) \<and>
              cells w' (next_ref w) = Undefined))"
proof (cases "sc = Singleton")
  case True
  let ?fn = "case map_of ps ''factory'' of None \<Rightarrow> Val Undefined | Some p \<Rightarrow> p"
  let ?ob = "Obj (Suc (next_ref w))
               (AList.update ''scope'' (Val (Str (scope_name sc)))
                 (AList.update ''factory'' (Val (SingletonFn (next_ref w) ?fn)) ps))"
  let ?w = "w\<lparr>cells := (cells w)(next_ref w := Undefined), next_ref := Suc (Suc (next_ref w))\<rparr>"
  have "replaceFactory cs token (Obj a ps) sc w = (Inr (cs(token \<mapsto> ?ob)), ?w)"
    using True by (simp add: replaceFactory_object)
  moreover have "get_prop ?ob ''dependencies'' = get_prop (Obj a ps) ''dependencies''"
    by (simp add: update_conv')
  moreover have "get_prop ?ob ''scope'' = Inr (Val (Str (scope_name sc)))"
    by (simp add: update_conv')
  moreover have "get_prop (Obj a ps) ''factory'' = Inr ?fn"
    by (simp split: option.splits)
  moreover have "get_prop ?ob ''factory'' = Inr (Val (SingletonFn (next_ref w) ?fn))"
    by (simp add: update_conv')
  moreover have "cells ?w (next_ref w) = Undefined" by simp
  ultimately show ?thesis using True by blast
next
  case False
  let ?ob = "Obj (next_ref w) (AList.update ''scope'' (Val (Str (scope_name sc))) ps)"
  have "replaceFactory cs token (Obj a ps) sc w = (Inr (cs(token \<mapsto> ?ob)), w\<lparr>next_ref := Suc (next_ref w)\<rparr>)"
    using False by (simp add: replaceFactory_object)
  moreover have "get_prop ?ob ''dependencies'' = get_prop (Obj a ps) ''dependencies''"
    by (simp add: update_conv')
  moreover have "get_prop ?ob ''scope'' = Inr (Val (Str (scope_name sc)))"
    by (simp add: update_conv')
  moreover have "get_prop ?ob ''factory'' = get_prop (Obj a ps) ''factory''"
    by (simp add: update_conv')
  ultimately show ?thesis using False by blast
qed

text \<open>
  Claim C2. \<^verbatim>\<open>registerFactory(token, descriptor, scope)\<close> validates in this order:
  \<^item> a descriptor that is not a non-null object is rejected with the error
    \<^verbatim>\<open>Factory must be an object\<close>, whatever the token and the state are;
  \<^item> otherwise a token that is already a key of the state is rejected with the error
    naming the token, whatever the dependencies are;
  \<^item> otherwise, for a descriptor with a list of dependency tokens, the first of them in
    declared order (index \<open>i\<close>) that is not a key of the state is named by the error
    \<^verbatim>\<open>Dependency ... not registered\<close>;
  \<^item> when all dependencies are keys, the result is that of \<^verbatim>\<open>replaceFactory\<close>: the state
    with the token mapped to a factory registration (the dependency list, the scope, and
    the factory, wrapped by \<^verbatim>\<open>defineSingleton\<close> for a singleton).
\<close>

theorem registerFactory_validation:
  "(typeof v \<noteq> ''object'' \<or> v = Null \<longrightarrow>
      registerFactory containerState token v sc w = (Inl (FactoryMustBeObject v), w))
   \<and> (typeof v = ''object'' \<and> v \<noteq> Null \<and> token \<in> dom containerState \<longrightarrow>
      registerFactory containerState token v sc w = (Inl (AlreadyRegistered token), w) \<and>
      message (AlreadyRegistered token) =
        Some (''Token Symbol('' @ keyFor token @ '') already registered''))
   \<and> (typeof v = ''object'' \<and> v \<noteq> Null \<and> token \<notin> dom containerState \<and>
      get_prop v ''dependencies'' = Inr (Deps deps) \<and>
      i < length deps \<and> deps ! i \<notin> dom containerState \<and> (\<forall>j<i. deps ! j \<in> dom containerState) \<longrightarrow>
      registerFactory containerState token v sc w = (Inl (DependencyNotRegistered (deps ! i)), w) \<and>
      message (DependencyNotRegistered (deps ! i)) =
        Some (''Dependency Symbol('' @ keyFor (deps ! i) @ '') not registered''))
   \<and> (typeof v = ''object'' \<and> v \<noteq> Null \<and> token \<notin> dom containerState \<and>
      get_prop v ''dependencies'' = Inr (Deps deps) \<and> set deps \<subseteq> dom containerState \<longrightarrow>
      registerFactory containerState token v sc w = replaceFactory containerState token v sc w \<and>
      (\<exists>ob w'. replaceFactory containerState token v sc w = (Inr (containerState(token \<mapsto> ob)), w') \<and>
         get_prop ob ''dependencies'' = Inr (Deps deps) \<and>
         get_prop ob ''scope'' = Inr (Val (Str (scope_name sc))) \<and>
         (sc \<noteq> Singleton \<longrightarrow> get_prop ob ''factory'' = get_prop v ''factory'') \<and>
         (sc = Singleton \<longrightarrow>
            (\<exists>fn. get_prop v ''factory'' = Inr fn \<and>
               get_prop ob ''factory'' = Inr (Val (SingletonFn (next_ref w) fn))))))"
proof (intro conjI impI)
  assume "typeof v \<noteq> ''object'' \<or> v = Null"
  then show "registerFactory containerState token v sc w = (Inl (FactoryMustBeObject v), w)"
    by (auto simp: registerFactory_def)
next
  assume a: "typeof v = ''object'' \<and> v \<noteq> Null \<and> token \<in> dom containerState"
  then obtain a' ps where "v = Obj a' ps" using non_null_object by blast
  with a show "registerFactory containerState token v sc w = (Inl (AlreadyRegistered token), w)"
    by (auto simp: registerFactory_def split: option.splits)
next
  assume a: "typeof v = ''object'' \<and> v \<noteq> Null \<and> token \<notin> dom containerState \<and>
      get_prop v ''dependencies'' = Inr (Deps deps) \<and>
      i < length deps \<and> deps ! i \<notin> dom containerState \<and> (\<forall>j<i. deps ! j \<in> dom containerState)"
  then obtain a' ps where v: "v = Obj a' ps" using non_null_object by blast
  from a have "verify_dependencies containerState deps = Some (DependencyNotRegistered (deps ! i))"
    by (intro verify_dependencies_first) auto
  with a v show "registerFactory containerState token v sc w
      = (Inl (DependencyNotRegistered (deps ! i)), w)"
    by (auto simp: registerFactory_def)
next
  assume a: "typeof v = ''object'' \<and> v \<noteq> Null \<and> token \<notin> dom containerState \<and>
      get_prop v ''dependencies'' = Inr (Deps deps) \<and> set deps \<subseteq> dom containerState"
  then obtain a' ps where v: "v = Obj a' ps" using non_null_object by blast
  from a have "verify_dependencies containerState deps = None"
    by (intro verify_dependencies_none) auto
  with a v show "registerFactory containerState token v sc w
      = replaceFactory containerState token v sc w"
    by (auto simp: registerFactory_def)
  from replaceFactory_object_result[of containerState token a' ps sc w] a v
  show "\<exists>ob w'. replaceFactory containerState token v sc w = (Inr (containerState(token \<mapsto> ob)), w') \<and>
         get_prop ob ''dependencies'' = Inr (Deps deps) \<and>
         get_prop ob ''scope'' = Inr (Val (Str (scope_name sc))) \<and>
         (sc \<noteq> Singleton \<longrightarrow> get_prop ob ''factory'' = get_prop v ''factory'') \<and>
         (sc = Singleton \<longrightarrow>
            (\<exists>fn. get_prop v ''factory'' = Inr fn \<and>
               get_prop ob ''factory'' = Inr (Val (SingletonFn (next_ref w) fn))))"
    by auto
qed simp_all

theorem registerFactory_validation_witness:
  "registerFactory demo_state (Symbol ''RepoA'') (Num 5) Transient world0
     = (Inl (FactoryMustBeObject (Num 5)), world0)
   \<and> registerFactory demo_state (Symbol ''RepoA'') descriptorE Transient world0
     = (Inl (AlreadyRegistered (Symbol ''RepoA'')), world0)
   \<and> registerFactory demo_state (Symbol ''factoryE'') descriptorE Transient world0
     = (Inl (DependencyNotRegistered (Symbol ''RepoB'')), world0)
   \<and> registerFactory demo_state (Symbol ''factoryD'') descriptorD Singleton world0
     = (Inr (demo_state(Symbol ''factoryD'' \<mapsto>
          Obj 1 [(''dependencies'', Deps [Symbol ''RepoA'', Symbol ''factoryC'']),
                 (''factory'', Val (SingletonFn 0 (Val (UserFn 1)))),
                 (''scope'', Val (Str ''singleton''))])),
        world0\<lparr>next_ref := 2\<rparr>)"
proof -
  have 1: "registerFactory demo_state (Symbol ''RepoA'') (Num 5) Transient world0
     = (Inl (FactoryMustBeObject (Num 5)), world0)"
    using registerFactory_validation[where v = "Num 5" and containerState = demo_state
        and token = "Symbol ''RepoA''" and sc = Transient and w = world0]
    by simp
  have 2: "registerFactory demo_state (Symbol ''RepoA'') descriptorE Transient world0
     = (Inl (AlreadyRegistered (Symbol ''RepoA'')), world0)"
    using registerFactory_validation[where v = descriptorE and containerState = demo_state
        and token = "Symbol ''RepoA''" and sc = Transient and w = world0]
    by (simp add: descriptorE_def demo_state_def)
  have 3: "registerFactory demo_state (Symbol ''factoryE'') descriptorE Transient world0
     = (Inl (DependencyNotRegistered (Symbol ''RepoB'')), world0)"
    using registerFactory_validation[where v = descriptorE and containerState = demo_state
        and token = "Symbol ''factoryE''" and sc = Transient and w = world0
        and deps = "[Symbol ''RepoA'', Symbol ''RepoB'', Symbol ''RepoZ'']" and i = 1]
    by (simp add: descriptorE_def demo_state_def)
  have "registerFactory demo_state (Symbol ''factoryD'') descriptorD Singleton world0
     = replaceFactory demo_state (Symbol ''factoryD'') descriptorD Singleton world0"
    using registerFactory_validation[where v = descriptorD and containerState = demo_state
        and token = "Symbol ''factoryD''" and sc = Singleton and w = world0
        and deps = "[Symbol ''RepoA'', Symbol ''factoryC'']"]
    by (simp add: descriptorD_def demo_state_def)
  then have 4: "registerFactory demo_state (Symbol ''factoryD'') descriptorD Singleton world0
     = (Inr (demo_state(Symbol ''factoryD'' \<mapsto>
          Obj 1 [(''dependencies'', Deps [Symbol ''RepoA'', Symbol ''factoryC'']),
                 (''factory'', Val (SingletonFn 0 (Val (UserFn 1)))),
                 (''scope'', Val (Str ''singleton''))])),
        world0\<lparr>next_ref := 2\<rparr>)"
    by (simp add: descriptorD_def replaceFactory_object world0_def fun_eq_iff)
  from 1 2 3 4 show ?thesis by blast
qed

lemma registerFactory_rejected_world:
  "registerFactory cs token v sc w = (Inl e, w') \<Longrightarrow> w' = w"
proof (cases "typeof v \<noteq> ''object'' \<or> \<not> truthy v")
  case True
  assume "registerFactory cs token v sc w = (Inl e, w')"
  with True show ?thesis by (simp add: registerFactory_def)
next
  case False
  assume r: "registerFactory cs token v sc w = (Inl e, w')"
  from False obtain a ps where v: "v = Obj a ps" by (cases v) auto
  have nf: "\<And>x. replaceFactory cs token (Obj a ps) sc w \<noteq> (Inl e, x)"
    by (simp add: replaceFactory_object)
  from r show ?thesis
    unfolding registerFactory_def v
    by (auto split: if_splits sum.splits field.splits option.splits jsval.splits list.splits simp: nf)
qed

lemma registerFactory_accepted:
  assumes "registerFactory cs token v sc w = (Inr cs', w')"
  shows "token \<notin> dom cs \<and> (\<exists>ob. cs' = cs(token \<mapsto> ob))"
proof -
  from assms have obj: "\<not> (typeof v \<noteq> ''object'' \<or> \<not> truthy v)"
    by (auto simp: registerFactory_def split: if_splits)
  then obtain a ps where v: "v = Obj a ps" by (cases v) auto
  from assms v have nd: "token \<notin> dom cs"
    by (auto simp: registerFactory_def split: if_splits option.splits)
  from assms v nd have "replaceFactory cs token (Obj a ps) sc w = (Inr cs', w')"
    by (auto simp: registerFactory_def split: if_splits sum.splits field.splits option.splits jsval.splits list.splits)
  then have "\<exists>ob. cs' = cs(token \<mapsto> ob)"
    by (auto simp: replaceFactory_object split: if_splits)
  with nd show ?thesis by simp
qed

text \<open>
  Claim C6. \<^verbatim>\<open>register\<close> is rejected only for a token that is already a key, and
  \<^verbatim>\<open>registerFactory\<close> when rejected (for whatever reason) leaves the world as it was, so
  that everything resolves from the builder's state as before; a successful call of either
  adds exactly one token, which was not a key, and keeps the registration of every other
  token.
\<close>

theorem strict_registration_all_or_nothing:
  "(register containerState token v = Inl e \<longrightarrow>
      e = AlreadyRegistered token \<and> token \<in> dom containerState)
   \<and> (register containerState token v = Inr cs' \<longrightarrow>
      token \<notin> dom containerState \<and> dom cs' = insert token (dom containerState) \<and>
      (\<forall>t. t \<noteq> token \<longrightarrow> cs' t = containerState t))
   \<and> (registerFactory containerState token d sc w = (Inl e, w') \<longrightarrow>
      w' = w \<and> (\<forall>n t. resolve env containerState n t w' = resolve env containerState n t w))
   \<and> (registerFactory containerState token d sc w = (Inr cs', w') \<longrightarrow>
      token \<notin> dom containerState \<and> dom cs' = insert token (dom containerState) \<and>
      (\<forall>t. t \<noteq> token \<longrightarrow> cs' t = containerState t))"
proof (intro conjI impI)
  assume "registerFactory containerState token d sc w = (Inl e, w')"
  then have "w' = w" by (rule registerFactory_rejected_world)
  then show "w' = w" and "\<forall>n t. resolve env containerState n t w' = resolve env containerState n t w"
    by simp_all
next
  assume "registerFactory containerState token d sc w = (Inr cs', w')"
  then have "token \<notin> dom containerState \<and> (\<exists>ob. cs' = containerState(token \<mapsto> ob))"
    by (rule registerFactory_accepted)
  then show "token \<notin> dom containerState" and "dom cs' = insert token (dom containerState)"
    and "\<forall>t. t \<noteq> token \<longrightarrow> cs' t = containerState t"
    by auto
qed (auto simp: register_def replace_def split: if_splits)

text \<open>
  Claim C8 says that \<^verbatim>\<open>replaceFactory\<close> rejects null like \<^verbatim>\<open>registerFactory\<close> does. The
  guard of \<^verbatim>\<open>replaceFactory\<close> is \<^verbatim>\<open>typeof value !== "object"\<close> alone, and the type of
  null is \<^verbatim>\<open>"object"\<close>: with the default scope (and with \<^verbatim>\<open>"scoped"\<close>) the call succeeds
  and stores an object that has only the \<^verbatim>\<open>scope\<close> property; with \<^verbatim>\<open>"singleton"\<close> reading
  \<^verbatim>\<open>value.factory\<close> throws a TypeError. \<^verbatim>\<open>registerFactory\<close> rejects null, and
  \<^verbatim>\<open>replaceFactory\<close> rejects everything that is not of type \<^verbatim>\<open>"object"\<close>, as claimed.
\<close>

theorem replaceFactory_null:
  "replaceFactory containerState token Null Transient w
     = (Inr (containerState(token \<mapsto> Obj (next_ref w) [(''scope'', Val (Str ''transient''))])),
        w\<lparr>next_ref := Suc (next_ref w)\<rparr>)
   \<and> replaceFactory containerState token Null Scoped w
     = (Inr (containerState(token \<mapsto> Obj (next_ref w) [(''scope'', Val (Str ''scoped''))])),
        w\<lparr>next_ref := Suc (next_ref w)\<rparr>)
   \<and> replaceFactory containerState token Null Singleton w = (Inl TypeError, w)
   \<and> registerFactory containerState token Null sc w = (Inl (FactoryMustBeObject Null), w)
   \<and> (typeof v \<noteq> ''object'' \<longrightarrow>
        replaceFactory containerState token v sc w = (Inl (FactoryMustBeObject v), w))"
  by (simp add: replaceFactory_def registerFactory_def new_object_def)

theorem replaceFactory_null_witness:
  "replaceFactory demo_state (Symbol ''factoryC'') Null Transient world0
     = (Inr (demo_state(Symbol ''factoryC'' \<mapsto> Obj 0 [(''scope'', Val (Str ''transient''))])),
        world0\<lparr>next_ref := 1\<rparr>)
   \<and> replaceFactory demo_state (Symbol ''factoryC'') (Str ''factory'') Transient world0
     = (Inl (FactoryMustBeObject (Str ''factory'')), world0)"
  using replaceFactory_null[of demo_state "Symbol ''factoryC''" world0 Transient "Str ''factory''"]
  by (simp add: world0_def)

theorem strict_registration_all_or_nothing_witness:
  "register demo_state (Symbol ''RepoA'') Null = Inl (AlreadyRegistered (Symbol ''RepoA''))
   \<and> Symbol ''RepoA'' \<in> dom demo_state
   \<and> register demo_state (Symbol ''RepoB'') Null = Inr (demo_state(Symbol ''RepoB'' \<mapsto> Null))
   \<and> dom (demo_state(Symbol ''RepoB'' \<mapsto> Null)) = insert (Symbol ''RepoB'') (dom demo_state)
   \<and> registerFactory demo_state (Symbol ''factoryE'') descriptorE Transient world0
       = (Inl (DependencyNotRegistered (Symbol ''RepoB'')), world0)
   \<and> (\<forall>n t. resolve demo_env demo_state n t world0 = resolve demo_env demo_state n t world0)
   \<and> registerFactory demo_state (Symbol ''factoryD'') descriptorD Transient world0
       = (Inr (demo_state(Symbol ''factoryD'' \<mapsto>
            Obj 0 [(''dependencies'', Deps [Symbol ''RepoA'', Symbol ''factoryC'']),
                   (''factory'', Val (UserFn 1)), (''scope'', Val (Str ''transient''))])),
          world0\<lparr>next_ref := 1\<rparr>)
   \<and> dom (demo_state(Symbol ''factoryD'' \<mapsto>
            Obj 0 [(''dependencies'', Deps [Symbol ''RepoA'', Symbol ''factoryC'']),
                   (''factory'', Val (UserFn 1)), (''scope'', Val (Str ''transient''))]))
       = insert (Symbol ''factoryD'') (dom demo_state)"
proof -
  have r1: "register demo_state (Symbol ''RepoA'') Null = Inl (AlreadyRegistered (Symbol ''RepoA''))"
    by (simp add: register_def demo_state_def)
  have r2: "register demo_state (Symbol ''RepoB'') Null = Inr (demo_state(Symbol ''RepoB'' \<mapsto> Null))"
    by (simp add: register_def replace_def demo_state_def)
  have r3: "registerFactory demo_state (Symbol ''factoryE'') descriptorE Transient world0
       = (Inl (DependencyNotRegistered (Symbol ''RepoB'')), world0)"
    by (simp add: registerFactory_def descriptorE_def demo_state_def)
  have r4: "registerFactory demo_state (Symbol ''factoryD'') descriptorD Transient world0
       = (Inr (demo_state(Symbol ''factoryD'' \<mapsto>
            Obj 0 [(''dependencies'', Deps [Symbol ''RepoA'', Symbol ''factoryC'']),
                   (''factory'', Val (UserFn 1)), (''scope'', Val (Str ''transient''))])),
          world0\<lparr>next_ref := 1\<rparr>)"
    by (simp add: registerFactory_def replaceFactory_object descriptorD_def demo_state_def world0_def)
  note inst = strict_registration_all_or_nothing[where containerState = demo_state and env = demo_env]
  from inst[where token = "Symbol ''RepoA''" and v = Null and e = "AlreadyRegistered (Symbol ''RepoA'')"] r1
  have c1: "Symbol ''RepoA'' \<in> dom demo_state" by blast
  from inst[where token = "Symbol ''RepoB''" and v = Null
      and cs' = "demo_state(Symbol ''RepoB'' \<mapsto> Null)"] r2
  have c2: "dom (demo_state(Symbol ''RepoB'' \<mapsto> Null)) = insert (Symbol ''RepoB'') (dom demo_state)"
    by blast
  from inst[where token = "Symbol ''factoryE''" and d = descriptorE and sc = Transient and w = world0
      and w' = world0 and e = "DependencyNotRegistered (Symbol ''RepoB'')"] r3
  have c3: "\<forall>n t. resolve demo_env demo_state n t world0 = resolve demo_env demo_state n t world0"
    by blast
  from inst[where token = "Symbol ''factoryD''" and d = descriptorD and sc = Transient and w = world0
      and w' = "world0\<lparr>next_ref := 1\<rparr>"
      and cs' = "demo_state(Symbol ''factoryD'' \<mapsto>
            Obj 0 [(''dependencies'', Deps [Symbol ''RepoA'', Symbol ''factoryC'']),
                   (''factory'', Val (UserFn 1)), (''scope'', Val (Str ''transient''))])"] r4
  have c4: "dom (demo_state(Symbol ''factoryD'' \<mapsto>
            Obj 0 [(''dependencies'', Deps [Symbol ''RepoA'', Symbol ''factoryC'']),
                   (''factory'', Val (UserFn 1)), (''scope'', Val (Str ''transient''))]))
       = insert (Symbol ''factoryD'') (dom demo_state)"
    by blast
  from r1 r2 r3 r4 c1 c2 c3 c4 show ?thesis by blast
qed

text \<open>
  Claim C3 says that \<^verbatim>\<open>register(T, v)\<close> followed by \<^verbatim>\<open>resolve(T)\<close> returns \<open>v\<close> for every
  value \<open>v\<close>. \<^verbatim>\<open>resolve\<close> tells a factory from a value by the \<^verbatim>\<open>dependencies\<close> property
  alone, so a registered value that has one is called as a factory: here \<^verbatim>\<open>resolve\<close> returns
  what the function under \<^verbatim>\<open>factory\<close> returns, not the value registered.
\<close>

theorem register_resolve_counterexample:
  "register Map.empty (Symbol ''T'') lookalike = Inr [Symbol ''T'' \<mapsto> lookalike]
   \<and> resolve demo_env [Symbol ''T'' \<mapsto> lookalike] (Suc 0) (Symbol ''T'') world0
       = Some (Inr (Obj 100 []), world0\<lparr>invocations := [(0, [])], user := 1\<rparr>)
   \<and> Obj 100 [] \<noteq> lookalike"
  by (simp add: register_def replace_def lookalike_def demo_env_def world0_def)

text \<open>
  Claim C3, amended. For every state, every token that is not yet a key and every value
  whose \<^verbatim>\<open>dependencies\<close> property can be read and is falsy (so the value is neither
  undefined nor null), \<^verbatim>\<open>register\<close> succeeds and \<^verbatim>\<open>resolve\<close> on the resulting state returns
  that very value, at any depth allowed and without changing the world.
\<close>

theorem register_then_resolve:
  "token \<notin> dom containerState \<Longrightarrow> get_prop v ''dependencies'' = Inr d \<Longrightarrow> \<not> truthy_prop d \<Longrightarrow>
     register containerState token v = Inr (replace containerState token v) \<and>
     resolve env (replace containerState token v) (Suc n) token w = Some (Inr v, w)"
  by (simp add: register_def replace_def)

theorem register_then_resolve_witness:
  "register demo_state (Symbol ''RepoB'') (Obj 5 [(''name'', Val (Str ''B''))])
     = Inr (replace demo_state (Symbol ''RepoB'') (Obj 5 [(''name'', Val (Str ''B''))]))
   \<and> resolve demo_env (replace demo_state (Symbol ''RepoB'') (Obj 5 [(''name'', Val (Str ''B''))]))
       (Suc 0) (Symbol ''RepoB'') world0
     = Some (Inr (Obj 5 [(''name'', Val (Str ''B''))]), world0)"
proof -
  have "Symbol ''RepoB'' \<notin> dom demo_state" by (simp add: demo_state_def)
  moreover have "get_prop (Obj 5 [(''name'', Val (Str ''B''))]) ''dependencies'' = Inr (Val Undefined)"
    by simp
  moreover have "\<not> truthy_prop (Val Undefined)" by simp
  ultimately show ?thesis
    by (rule register_then_resolve)
qed

section \<open>Properties of singletons\<close>

lemma later_refl: "later w w"
  by (simp add: later_def)

lemma later_trans: "later w1 w2 \<Longrightarrow> later w2 w3 \<Longrightarrow> later w1 w3"
  unfolding later_def by (metis)

lemma call_later: "call env f args w = (r, w') \<Longrightarrow> later w w'"
proof (induction env f args w arbitrary: r w' rule: call.induct)
  case (1 env i args w)
  then show ?case by (auto simp: later_def split: prod.splits)
next
  case (2 env c fn args w)
  show ?case
  proof (cases "nullish (cells w c)")
    case True
    obtain r0 w0 where inner: "call env fn args w = (r0, w0)" by fastforce
    from "2.IH"[OF True inner] have l: "later w w0" .
    show ?thesis
    proof (cases r0)
      case (Inl e)
      with "2.prems" True inner l show ?thesis by simp
    next
      case (Inr x)
      with "2.prems" True inner have "w' = w0\<lparr>cells := (cells w0)(c := x)\<rparr>" by simp
      with l True show ?thesis by (auto simp: later_def)
    qed
  next
    case False
    with "2.prems" show ?thesis by (simp add: later_refl)
  qed
qed (auto simp: later_refl)

lemma map_resolve_later:
  assumes "\<And>d w r w'. f d w = Some (r, w') \<Longrightarrow> later w w'"
  shows "map_resolve f deps w = Some (r, w') \<Longrightarrow> later w w'"
proof (induction deps arbitrary: w r w')
  case Nil
  then show ?case by (simp add: later_refl)
next
  case (Cons d ds)
  from Cons.prems obtain r1 w1 where s1: "f d w = Some (r1, w1)"
    by (auto split: option.splits)
  then have l1: "later w w1" by (rule assms)
  show ?case
  proof (cases r1)
    case (Inl e)
    with Cons.prems s1 l1 show ?thesis by simp
  next
    case (Inr x)
    with Cons.prems s1 obtain r2 w2 where s2: "map_resolve f ds w1 = Some (r2, w2)" and "w' = w2"
      by (auto split: option.splits sum.splits)
    with Cons.IH l1 show ?thesis using later_trans by blast
  qed
qed

lemma resolve_later: "resolve env cs n token w = Some (r, w') \<Longrightarrow> later w w'"
proof (induction n arbitrary: token w r w')
  case 0
  then show ?case by simp
next
  case (Suc n)
  have mr: "\<And>deps w r w'. map_resolve (resolve env cs n) deps w = Some (r, w') \<Longrightarrow> later w w'"
    by (rule map_resolve_later[where f = "resolve env cs n"]) (rule Suc.IH)
  show ?case
  proof (cases "\<exists>st deps factory. cs token = Some st \<and> get_prop st ''dependencies'' = Inr (Deps deps)
      \<and> get_prop st ''factory'' = Inr factory")
    case True
    then obtain st deps factory where st: "cs token = Some st"
      "get_prop st ''dependencies'' = Inr (Deps deps)" "get_prop st ''factory'' = Inr factory"
      by blast
    from Suc.prems st obtain r1 w1 where m: "map_resolve (resolve env cs n) deps w = Some (r1, w1)"
      by (auto split: option.splits)
    then have l1: "later w w1" by (rule mr)
    show ?thesis
    proof (cases r1)
      case (Inl e)
      with Suc.prems st m l1 show ?thesis by simp
    next
      case (Inr xs)
      with Suc.prems st m have "call env factory xs w1 = (r, w')" by simp
      then have "later w1 w'" by (rule call_later)
      with l1 show ?thesis by (rule later_trans)
    qed
  next
    case False
    with Suc.prems have "w' = w"
      by (auto split: option.splits sum.splits if_splits field.splits)
    then show ?thesis by (simp add: later_refl)
  qed
qed

lemma singleton_cached:
  "\<not> nullish (cells w c) \<Longrightarrow> call env (Val (SingletonFn c fn)) args w = (Inr (cells w c), w)"
  by simp

lemma singleton_stores:
  "call env (Val (SingletonFn c fn)) args w = (Inr r, w') \<Longrightarrow> cells w' c = r"
  by (auto split: if_splits prod.splits sum.splits)




lemma map_resolve_Inr_set:
  "map_resolve f deps w = Some (Inr xs, w') \<Longrightarrow>
     \<forall>d\<in>set deps. \<exists>w1 x w2. f d w1 = Some (Inr x, w2)"
proof (induction deps arbitrary: w xs w')
  case Nil
  then show ?case by simp
next
  case (Cons d ds)
  from Cons.prems obtain x w1 where s1: "f d w = Some (Inr x, w1)"
    by (auto split: option.splits sum.splits)
  with Cons.prems obtain ys where "map_resolve f ds w1 = Some (Inr ys, w')"
    by (auto split: option.splits sum.splits)
  from Cons.IH[OF this] s1 show ?case by auto
qed

lemma resolve_Inr_enough:
  "resolve env cs n token w = Some (Inr x, w') \<Longrightarrow> enough cs n token"
proof (induction n arbitrary: token w x w')
  case 0
  then show ?case by simp
next
  case (Suc n)
  show ?case
  proof (cases "\<exists>st deps. cs token = Some st \<and> get_prop st ''dependencies'' = Inr (Deps deps)")
    case True
    then obtain st deps where st: "cs token = Some st" "get_prop st ''dependencies'' = Inr (Deps deps)"
      by blast
    from Suc.prems st obtain xs w1 where "map_resolve (resolve env cs n) deps w = Some (Inr xs, w1)"
      by (auto split: option.splits sum.splits)
    then have "\<forall>d\<in>set deps. \<exists>w1 x w2. resolve env cs n d w1 = Some (Inr x, w2)"
      by (rule map_resolve_Inr_set)
    with Suc.IH have "list_all (enough cs n) deps"
      by (auto simp: list_all_iff)
    with st show ?thesis by simp
  next
    case False
    then show ?thesis by (auto split: option.splits sum.splits field.splits)
  qed
qed

lemma resolve_factory_unfold:
  assumes "cs token = Some ob" "get_prop ob ''dependencies'' = Inr (Deps deps)"
    "get_prop ob ''factory'' = Inr factory"
  shows "resolve env cs (Suc n) token w =
     (case map_resolve (resolve env cs n) deps w of
        None \<Rightarrow> None
      | Some (Inl e, w1) \<Rightarrow> Some (Inl e, w1)
      | Some (Inr args, w1) \<Rightarrow> Some (call env factory args w1))"
  using assms by simp

lemma singleton_resolve_again:
  assumes ob: "cs token = Some ob" "get_prop ob ''dependencies'' = Inr (Deps deps)"
    "get_prop ob ''factory'' = Inr (Val (SingletonFn c fn))"
    and first: "resolve env cs n token w = Some (Inr x, w1)"
    and x: "\<not> nullish x" and l: "later w1 w2"
  shows "\<exists>r w3. resolve env cs n token w2 = Some (r, w3) \<and>
     map_option (\<lambda>(a, w). (map_sum id (\<lambda>args. x) a, w)) (map_resolve (resolve env cs (n - 1)) deps w2)
       = Some (r, w3)"
proof -
  from first obtain k where n: "n = Suc k" by (cases n) auto
  note unf = resolve_factory_unfold[where cs = cs and token = token, OF ob]
  from first n unf[where env = env and n = k and w = w] obtain args w0 where
    "map_resolve (resolve env cs k) deps w = Some (Inr args, w0)"
    and c1: "call env (Val (SingletonFn c fn)) args w0 = (Inr x, w1)"
    by (auto split: option.splits sum.splits prod.splits)
  from c1 have "cells w1 c = x" by (rule singleton_stores)
  with x l have cached: "cells w2 c = x" by (auto simp: later_def)
  from first have "enough cs n token" by (rule resolve_Inr_enough)
  then have "resolve env cs n token w2 \<noteq> None" by (rule resolve_total)
  then obtain r w3 where second: "resolve env cs n token w2 = Some (r, w3)" by fastforce
  have "map_option (\<lambda>(a, w). (map_sum id (\<lambda>args. x) a, w)) (map_resolve (resolve env cs (n - 1)) deps w2)
       = Some (r, w3)"
  proof (cases "map_resolve (resolve env cs k) deps w2")
    case None
    with second n unf[where env = env and n = k and w = w2] show ?thesis by simp
  next
    case (Some p)
    obtain a w4 where p: "p = (a, w4)" by (cases p)
    show ?thesis
    proof (cases a)
      case (Inl e)
      with Some p second n unf[where env = env and n = k and w = w2] show ?thesis by simp
    next
      case (Inr args2)
      have "map_resolve (resolve env cs k) deps w2 = Some (a, w4)"
        using Some p by simp
      then have "later w2 w4"
        by (rule map_resolve_later[where f = "resolve env cs k", rotated]) (rule resolve_later)
      with cached x have "cells w4 c = x" by (auto simp: later_def)
      with x have "call env (Val (SingletonFn c fn)) args2 w4 = (Inr x, w4)" by simp
      with Some p Inr second n unf[where env = env and n = k and w = w2] show ?thesis by simp
    qed
  qed
  with second show ?thesis by blast
qed

text \<open>
  Claim C4 says that the wrapper caches the result of its first invocation, so that the
  underlying factory is invoked at most once. The wrapper is
  \<^verbatim>\<open>instance ??= fn(...args)\<close>: it calls the factory whenever the variable holds undefined
  or null, also after a call that returned undefined or null. Here a singleton factory that
  returns undefined is invoked by each of two resolutions in a row.
\<close>

theorem singleton_counterexample:
  "replaceFactory Map.empty (Symbol ''T'') descriptorV Singleton world0
     = (Inr void_state, world0\<lparr>next_ref := 2\<rparr>)
   \<and> resolve void_env void_state (Suc 0) (Symbol ''T'') (world0\<lparr>next_ref := 2\<rparr>)
     = Some (Inr Undefined, world0\<lparr>next_ref := 2, invocations := [(0, [])], user := 1\<rparr>)
   \<and> resolve void_env void_state (Suc 0) (Symbol ''T'')
       (world0\<lparr>next_ref := 2, invocations := [(0, [])], user := 1\<rparr>)
     = Some (Inr Undefined, world0\<lparr>next_ref := 2, invocations := [(0, []), (0, [])], user := 2\<rparr>)"
  by (simp add: replaceFactory_object descriptorV_def void_state_def void_env_def world0_def fun_eq_iff)

text \<open>
  Claim C4, amended. \<^verbatim>\<open>replaceFactory\<close> with scope \<^verbatim>\<open>"singleton"\<close> stores the factory wrapped
  by \<^verbatim>\<open>defineSingleton\<close>, with a fresh variable that holds undefined. Once a call of the
  wrapper has returned a value \<open>x\<close> other than undefined and null, every call of it in every
  later world returns \<open>x\<close> and leaves the world as it is: the underlying factory is not
  invoked again. So when \<^verbatim>\<open>resolve(token)\<close> has returned such an \<open>x\<close>, a \<^verbatim>\<open>resolve(token)\<close>
  in any later world returns as well; it resolves the dependencies again, and unless one of
  them throws it returns the identical \<open>x\<close>, in the world the dependencies left. Every
  resolution leads to a later world.
\<close>

theorem singleton_caches:
  "(typeof d = ''object'' \<and> d \<noteq> Null \<longrightarrow>
      (\<exists>ob fn w'. replaceFactory containerState token d Singleton w0
           = (Inr (containerState(token \<mapsto> ob)), w') \<and>
         get_prop d ''factory'' = Inr fn \<and>
         get_prop ob ''factory'' = Inr (Val (SingletonFn (next_ref w0) fn)) \<and>
         get_prop ob ''dependencies'' = get_prop d ''dependencies'' \<and>
         cells w' (next_ref w0) = Undefined))
   \<and> (call env (Val (SingletonFn c fn)) args w = (Inr x, w1) \<and> \<not> nullish x \<and> later w1 w2 \<longrightarrow>
      call env (Val (SingletonFn c fn)) args' w2 = (Inr x, w2))
   \<and> (containerState token = Some ob \<and> get_prop ob ''dependencies'' = Inr (Deps deps) \<and>
      get_prop ob ''factory'' = Inr (Val (SingletonFn c fn)) \<and>
      resolve env containerState n token w = Some (Inr x, w1) \<and> \<not> nullish x \<and> later w1 w2 \<longrightarrow>
      (\<exists>r w3. resolve env containerState n token w2 = Some (r, w3) \<and>
         map_option (\<lambda>(a, w). (map_sum id (\<lambda>args. x) a, w))
           (map_resolve (resolve env containerState (n - 1)) deps w2) = Some (r, w3)))
   \<and> (resolve env containerState n token w = Some (r, w') \<longrightarrow> later w w')"
proof (intro conjI impI)
  assume "typeof d = ''object'' \<and> d \<noteq> Null"
  then obtain a ps where d: "d = Obj a ps" using non_null_object by blast
  from replaceFactory_object_result[of containerState token a ps Singleton w0]
  show "\<exists>ob fn w'. replaceFactory containerState token d Singleton w0
           = (Inr (containerState(token \<mapsto> ob)), w') \<and>
         get_prop d ''factory'' = Inr fn \<and>
         get_prop ob ''factory'' = Inr (Val (SingletonFn (next_ref w0) fn)) \<and>
         get_prop ob ''dependencies'' = get_prop d ''dependencies'' \<and>
         cells w' (next_ref w0) = Undefined"
    unfolding d by blast
next
  assume a: "call env (Val (SingletonFn c fn)) args w = (Inr x, w1) \<and> \<not> nullish x \<and> later w1 w2"
  then have "cells w1 c = x" using singleton_stores by blast
  with a have "cells w2 c = x" by (auto simp: later_def)
  with a show "call env (Val (SingletonFn c fn)) args' w2 = (Inr x, w2)" by simp
next
  assume a: "containerState token = Some ob \<and> get_prop ob ''dependencies'' = Inr (Deps deps) \<and>
      get_prop ob ''factory'' = Inr (Val (SingletonFn c fn)) \<and>
      resolve env containerState n token w = Some (Inr x, w1) \<and> \<not> nullish x \<and> later w1 w2"
  then show "\<exists>r w3. resolve env containerState n token w2 = Some (r, w3) \<and>
         map_option (\<lambda>(a, w). (map_sum id (\<lambda>args. x) a, w))
           (map_resolve (resolve env containerState (n - 1)) deps w2) = Some (r, w3)"
    by (intro singleton_resolve_again) auto
next
  assume "resolve env containerState n token w = Some (r, w')"
  then show "later w w'" by (rule resolve_later)
qed

lemma singleton_state_first:
  "resolve demo_env singleton_state (Suc (Suc (Suc 0))) (Symbol ''factoryD'') (world0\<lparr>next_ref := 2\<rparr>)
     = Some (Inr instanceD, world1)"
  by (simp add: singleton_state_def demo_state_def demo_env_def world0_def world1_def
      instanceC_def instanceD_def repoA_def)

theorem singleton_caches_witness:
  "replaceFactory demo_state (Symbol ''factoryD'') descriptorD Singleton world0
     = (Inr singleton_state, world0\<lparr>next_ref := 2\<rparr>)
   \<and> resolve demo_env singleton_state (Suc (Suc (Suc 0))) (Symbol ''factoryD'') (world0\<lparr>next_ref := 2\<rparr>)
     = Some (Inr instanceD, world1)
   \<and> resolve demo_env singleton_state (Suc (Suc (Suc 0))) (Symbol ''factoryD'') world1
     = Some (Inr instanceD,
             world1\<lparr>invocations := [(0, [repoA]), (1, [repoA, instanceC]), (0, [repoA])], user := 3\<rparr>)
   \<and> call demo_env (Val (SingletonFn 0 (Val (UserFn 1)))) [] world1 = (Inr instanceD, world1)
   \<and> later (world0\<lparr>next_ref := 2\<rparr>) world1"
proof -
  note inst = singleton_caches[where env = demo_env and containerState = singleton_state
      and token = "Symbol ''factoryD''" and c = 0 and fn = "Val (UserFn 1)" and x = instanceD
      and ?w1.0 = world1 and ?w2.0 = world1]
  have installed: "replaceFactory demo_state (Symbol ''factoryD'') descriptorD Singleton world0
     = (Inr singleton_state, world0\<lparr>next_ref := 2\<rparr>)"
    by (simp add: replaceFactory_object descriptorD_def singleton_state_def world0_def fun_eq_iff)
  have nn: "\<not> nullish instanceD" by (simp add: instanceD_def)
  have hyp3: "singleton_state (Symbol ''factoryD'')
      = Some (Obj 1 [(''dependencies'', Deps [Symbol ''RepoA'', Symbol ''factoryC'']),
              (''factory'', Val (SingletonFn 0 (Val (UserFn 1)))),
              (''scope'', Val (Str ''singleton''))]) \<and>
    get_prop (Obj 1 [(''dependencies'', Deps [Symbol ''RepoA'', Symbol ''factoryC'']),
              (''factory'', Val (SingletonFn 0 (Val (UserFn 1)))),
              (''scope'', Val (Str ''singleton''))]) ''dependencies''
      = Inr (Deps [Symbol ''RepoA'', Symbol ''factoryC'']) \<and>
    get_prop (Obj 1 [(''dependencies'', Deps [Symbol ''RepoA'', Symbol ''factoryC'']),
              (''factory'', Val (SingletonFn 0 (Val (UserFn 1)))),
              (''scope'', Val (Str ''singleton''))]) ''factory''
      = Inr (Val (SingletonFn 0 (Val (UserFn 1)))) \<and>
    resolve demo_env singleton_state (Suc (Suc (Suc 0))) (Symbol ''factoryD'') (world0\<lparr>next_ref := 2\<rparr>)
      = Some (Inr instanceD, world1) \<and> \<not> nullish instanceD \<and> later world1 world1"
    using singleton_state_first nn later_refl[of world1] by (simp add: singleton_state_def)
  have deps2: "map_resolve (resolve demo_env singleton_state (Suc (Suc (Suc 0)) - 1))
       [Symbol ''RepoA'', Symbol ''factoryC''] world1
     = Some (Inr [repoA, Obj 102 [(''arg'', Val repoA)]],
             world1\<lparr>invocations := [(0, [repoA]), (1, [repoA, instanceC]), (0, [repoA])], user := 3\<rparr>)"
    by (simp add: singleton_state_def demo_state_def demo_env_def world1_def repoA_def)
  from inst[THEN conjunct2, THEN conjunct2, THEN conjunct1, THEN mp, OF hyp3]
  obtain r w3 where
    "resolve demo_env singleton_state (Suc (Suc (Suc 0))) (Symbol ''factoryD'') world1 = Some (r, w3)"
    "map_option (\<lambda>(a, w). (map_sum id (\<lambda>args. instanceD) a, w))
       (map_resolve (resolve demo_env singleton_state (Suc (Suc (Suc 0)) - 1))
          [Symbol ''RepoA'', Symbol ''factoryC''] world1) = Some (r, w3)"
    by blast
  then have second: "resolve demo_env singleton_state (Suc (Suc (Suc 0))) (Symbol ''factoryD'') world1
     = Some (Inr instanceD,
             world1\<lparr>invocations := [(0, [repoA]), (1, [repoA, instanceC]), (0, [repoA])], user := 3\<rparr>)"
    unfolding deps2 by (simp del: resolve.simps)
  have hyp2: "call demo_env (Val (SingletonFn 0 (Val (UserFn 1)))) [repoA, instanceC]
        (world0\<lparr>next_ref := 2, invocations := [(0, [repoA])], user := 1\<rparr>) = (Inr instanceD, world1)
      \<and> \<not> nullish instanceD \<and> later world1 world1"
    using later_refl[of world1]
    by (simp add: demo_env_def world0_def world1_def instanceD_def)
  from inst[THEN conjunct2, THEN conjunct1, THEN mp, OF hyp2]
  have again: "call demo_env (Val (SingletonFn 0 (Val (UserFn 1)))) [] world1 = (Inr instanceD, world1)" .
  from inst[THEN conjunct2, THEN conjunct2, THEN conjunct2, THEN mp, OF singleton_state_first]
  have l: "later (world0\<lparr>next_ref := 2\<rparr>) world1" .
  from installed singleton_state_first second again l show ?thesis by blast
qed

section \<open>Properties of scopes\<close>

lemma scopedResolve_cached:
  "insts token = Some x \<Longrightarrow> scopedResolve env cs n token insts w = Some (Inr x, insts, w)"
  by (simp add: scopedResolve_def)

lemma scopedResolve_other:
  "scopedResolve env cs n token insts w = Some (r, insts1, w1) \<Longrightarrow> d \<noteq> token \<Longrightarrow> insts1 d = insts d"
  by (auto simp: scopedResolve_def split: option.splits sum.splits if_splits)

lemma scopedResolve_extends:
  "scopedResolve env cs n token insts w = Some (r, insts1, w1) \<Longrightarrow> insts \<subseteq>\<^sub>m insts1"
  by (auto simp: scopedResolve_def map_le_def split: option.splits sum.splits if_splits)

lemma scopedResolve_stores:
  "scopedResolve env cs n token insts w = Some (Inr x, insts1, w1) \<Longrightarrow>
     registered_scope cs token = Val (Str ''scoped'') \<Longrightarrow> insts1 token = Some x"
  by (auto simp: scopedResolve_def split: option.splits sum.splits if_splits)

lemma scopedResolve_miss:
  "insts token = None \<Longrightarrow>
     scopedResolve env cs n token insts w =
       (case resolve env cs n token w of
          None \<Rightarrow> None
        | Some (Inl e, w1) \<Rightarrow> Some (Inl e, insts, w1)
        | Some (Inr x, w1) \<Rightarrow>
            Some (Inr x,
                  (if registered_scope cs token = Val (Str ''scoped'') then insts(token \<mapsto> x) else insts),
                  w1))"
  by (simp add: scopedResolve_def)

lemma run_answer:
  "insts token = Some x \<Longrightarrow>
     run_callback env cs n cb insts w = run_callback env cs n (answer token x cb) insts w"
proof (induction cb arbitrary: insts w)
  case (CallScoped token' k)
  have ih: "\<And>r insts w. insts token = Some x \<Longrightarrow>
      run_callback env cs n (k r) insts w = run_callback env cs n (answer token x (k r)) insts w"
    by (rule CallScoped.IH[OF rangeI])
  show ?case
  proof (cases "token' = token")
    case True
    with CallScoped.prems have "scopedResolve env cs n token' insts w = Some (Inr x, insts, w)"
      by (simp add: scopedResolve_cached)
    with True ih[where insts = insts, OF CallScoped.prems] show ?thesis by simp
  next
    case False
    show ?thesis
    proof (cases "scopedResolve env cs n token' insts w")
      case None
      with False show ?thesis by simp
    next
      case (Some p)
      obtain r insts1 w1 where p: "p = (r, insts1, w1)" by (cases p)
      with Some False have "insts1 token = insts token"
        using scopedResolve_other[of env cs n token' insts w r insts1 w1 token] by auto
      with CallScoped.prems have "insts1 token = Some x" by simp
      from ih[where insts = insts1, OF this] Some p False show ?thesis by simp
    qed
  qed
next
  case (CallResolve token' k)
  have ih: "\<And>r insts w. insts token = Some x \<Longrightarrow>
      run_callback env cs n (k r) insts w = run_callback env cs n (answer token x (k r)) insts w"
    by (rule CallResolve.IH[OF rangeI])
  show ?case
  proof (cases "resolve env cs n token' w")
    case None
    then show ?thesis by simp
  next
    case (Some p)
    obtain r w1 where p: "p = (r, w1)" by (cases p)
    from ih[where insts = insts, OF CallResolve.prems] Some p show ?thesis by simp
  qed
qed simp_all

lemma replaceFactory_registered_scope:
  "replaceFactory cs token (Obj a ps) sc w = (Inr cs', w') \<Longrightarrow>
     registered_scope cs' token = Val (Str (scope_name sc))"
  by (auto simp: replaceFactory_object registered_scope_def update_conv' split: if_splits)

text \<open>
  Claim C5 says that across two \<^verbatim>\<open>createScope\<close> invocations the instances of a scoped
  token differ. Each scope calls the factory anew, and what comes back is the factory's
  business: here the factory returns the same object at every call, and two scopes in a
  row get that one object.
\<close>

theorem scoped_instances_counterexample:
  "registerFactory Map.empty (Symbol ''T'') descriptorT Scoped world0
     = (Inr shared_state, world0\<lparr>next_ref := 1\<rparr>)
   \<and> createScope shared_env shared_state (Suc 0) (CallScoped (Symbol ''T'') Done) (world0\<lparr>next_ref := 1\<rparr>)
     = Some (Inr (Inr (Obj 50 [(''name'', Val (Str ''shared''))])),
             world0\<lparr>next_ref := 1, invocations := [(0, [])]\<rparr>)
   \<and> createScope shared_env shared_state (Suc 0) (CallScoped (Symbol ''T'') Done)
       (world0\<lparr>next_ref := 1, invocations := [(0, [])]\<rparr>)
     = Some (Inr (Inr (Obj 50 [(''name'', Val (Str ''shared''))])),
             world0\<lparr>next_ref := 1, invocations := [(0, []), (0, [])]\<rparr>)"
  by (simp add: registerFactory_def replaceFactory_object descriptorT_def shared_state_def
      createScope_def scopedResolve_def registered_scope_def shared_env_def world0_def)

text \<open>
  Claim C5, amended. A factory registered with scope \<^verbatim>\<open>"scoped"\<close> has the scope
  \<^verbatim>\<open>"scoped"\<close> in the state. For a token with that scope:
  \<^item> within one \<^verbatim>\<open>createScope\<close>, once the scoped resolver has returned \<open>x\<close> for the token,
    the rest of the callback, whatever it does, runs as if every further scoped resolution
    of the token were answered by \<open>x\<close>; two resolutions in a row return \<open>x\<close> twice and
    resolve once; the cache of a scope only grows, and an instance in it is returned
    without resolving;
  \<^item> every \<^verbatim>\<open>createScope\<close> starts without instances: its first resolution of the token is
    an ordinary \<^verbatim>\<open>resolve\<close> in the world of that moment, that is a new invocation of the
    factory, whose result is the instance of this scope (so two scopes get different
    instances whenever the factory makes a new object at every call);
  \<^item> an ordinary \<^verbatim>\<open>resolve\<close>, also one made from inside a callback, does not see the
    instances of any scope.
\<close>

theorem scoped_instances:
  "(typeof d = ''object'' \<and> d \<noteq> Null \<and> (registerFactory containerState0 token d Scoped w0 = (Inr containerState, w0')
       \<or> replaceFactory containerState0 token d Scoped w0 = (Inr containerState, w0')) \<longrightarrow>
      registered_scope containerState token = Val (Str ''scoped''))
   \<and> (resolve env containerState n token w = Some (Inr x, w1) \<and>
      registered_scope containerState token = Val (Str ''scoped'') \<longrightarrow>
      createScope env containerState n (CallScoped token k) w
        = run_callback env containerState n (answer token x (k (Inr x))) [token \<mapsto> x] w1 \<and>
      createScope env containerState n
          (CallScoped token (\<lambda>r1. CallScoped token (\<lambda>r2. Done (r1, r2)))) w
        = Some (Inr (Inr x, Inr x), w1))
   \<and> (scopedResolve env containerState n token insts w = Some (Inr x, insts1, w1) \<and>
      registered_scope containerState token = Val (Str ''scoped'') \<and> insts1 \<subseteq>\<^sub>m insts2 \<longrightarrow>
      scopedResolve env containerState m token insts2 w2 = Some (Inr x, insts2, w2))
   \<and> (scopedResolve env containerState n token insts w = Some (r, insts1, w1) \<longrightarrow> insts \<subseteq>\<^sub>m insts1)
   \<and> createScope env containerState n (CallScoped token Done) w
        = map_option (\<lambda>(r, w'). (Inr r, w')) (resolve env containerState n token w)
   \<and> run_callback env containerState n (CallResolve token k') insts w
        = (case resolve env containerState n token w of
             None \<Rightarrow> None
           | Some (r, w') \<Rightarrow> run_callback env containerState n (k' r) insts w')"
proof (intro conjI impI)
  assume a: "typeof d = ''object'' \<and> d \<noteq> Null \<and> (registerFactory containerState0 token d Scoped w0 = (Inr containerState, w0')
       \<or> replaceFactory containerState0 token d Scoped w0 = (Inr containerState, w0'))"
  then obtain a' ps where d: "d = Obj a' ps" using non_null_object by blast
  have "registerFactory containerState0 token d Scoped w0 = (Inr containerState, w0') \<Longrightarrow>
      replaceFactory containerState0 token d Scoped w0 = (Inr containerState, w0')"
    unfolding registerFactory_def d
    by (auto split: if_splits sum.splits field.splits option.splits jsval.splits list.splits)
  with a have "replaceFactory containerState0 token (Obj a' ps) Scoped w0 = (Inr containerState, w0')"
    unfolding d by blast
  then show "registered_scope containerState token = Val (Str ''scoped'')"
    using replaceFactory_registered_scope by fastforce
next
  assume a: "resolve env containerState n token w = Some (Inr x, w1) \<and>
      registered_scope containerState token = Val (Str ''scoped'')"
  then have first: "scopedResolve env containerState n token Map.empty w
      = Some (Inr x, [token \<mapsto> x], w1)"
    by (simp add: scopedResolve_def)
  have cached: "[token \<mapsto> x] token = Some x" by simp
  from first show g: "createScope env containerState n (CallScoped token k) w
        = run_callback env containerState n (answer token x (k (Inr x))) [token \<mapsto> x] w1"
    using run_answer[where insts = "[token \<mapsto> x]" and token = token and x = x, OF cached,
        of env containerState n "k (Inr x)" w1]
    by (simp add: createScope_def)
  from first show "createScope env containerState n
          (CallScoped token (\<lambda>r1. CallScoped token (\<lambda>r2. Done (r1, r2)))) w
        = Some (Inr (Inr x, Inr x), w1)"
    by (simp add: createScope_def scopedResolve_cached)
next
  assume a: "scopedResolve env containerState n token insts w = Some (Inr x, insts1, w1) \<and>
      registered_scope containerState token = Val (Str ''scoped'') \<and> insts1 \<subseteq>\<^sub>m insts2"
  then have "insts1 token = Some x" using scopedResolve_stores by blast
  with a have "insts2 token = Some x" by (auto simp: map_le_def dom_def)
  then show "scopedResolve env containerState m token insts2 w2 = Some (Inr x, insts2, w2)"
    by (rule scopedResolve_cached)
next
  assume "scopedResolve env containerState n token insts w = Some (r, insts1, w1)"
  then show "insts \<subseteq>\<^sub>m insts1" by (rule scopedResolve_extends)
next
  show "createScope env containerState n (CallScoped token Done) w
        = map_option (\<lambda>(r, w'). (Inr r, w')) (resolve env containerState n token w)"
    by (auto simp: createScope_def scopedResolve_def split: option.splits sum.splits)
next
  show "run_callback env containerState n (CallResolve token k') insts w
        = (case resolve env containerState n token w of
             None \<Rightarrow> None
           | Some (r, w') \<Rightarrow> run_callback env containerState n (k' r) insts w')"
    by (simp split: option.splits)
qed

text \<open>
  Claim C10. The cache of a scope is read and written for the token given to the scoped
  resolver and for no other. When that token is not in the cache and its registration is a
  factory, the dependencies are resolved by the ordinary \<^verbatim>\<open>resolve\<close> (the values \<open>xs\<close>, whatever
  the cache holds for them), the factory is called with them, and afterwards the cache holds
  what it held for every other token, a dependency with scope \<^verbatim>\<open>"scoped"\<close> included.
\<close>

theorem scoped_dependencies_bypass_cache:
  "(containerState token = Some ob \<and> get_prop ob ''dependencies'' = Inr (Deps deps) \<and>
      get_prop ob ''factory'' = Inr factory \<and> insts token = None \<and>
      length ws = Suc (length deps) \<and> length xs = length deps \<and> ws ! 0 = w \<and>
      (\<forall>i<length deps.
         resolve env containerState n (deps ! i) (ws ! i) = Some (Inr (xs ! i), ws ! Suc i)) \<longrightarrow>
      scopedResolve env containerState (Suc n) token insts w
        = (case call env factory xs (ws ! length deps) of
             (Inl e, w') \<Rightarrow> Some (Inl e, insts, w')
           | (Inr x, w') \<Rightarrow>
               Some (Inr x,
                     (if registered_scope containerState token = Val (Str ''scoped'')
                      then insts(token \<mapsto> x) else insts),
                     w')))
   \<and> (insts token = None \<longrightarrow>
      map_option (\<lambda>(r, insts1, w1). (r, w1)) (scopedResolve env containerState n token insts w)
        = resolve env containerState n token w)
   \<and> (scopedResolve env containerState n token insts w = Some (r, insts1, w1) \<and> d \<noteq> token \<longrightarrow>
      insts1 d = insts d)"
proof (intro conjI impI)
  assume a: "containerState token = Some ob \<and> get_prop ob ''dependencies'' = Inr (Deps deps) \<and>
      get_prop ob ''factory'' = Inr factory \<and> insts token = None \<and>
      length ws = Suc (length deps) \<and> length xs = length deps \<and> ws ! 0 = w \<and>
      (\<forall>i<length deps.
         resolve env containerState n (deps ! i) (ws ! i) = Some (Inr (xs ! i), ws ! Suc i))"
  then have "map_resolve (resolve env containerState n) deps (ws ! 0) = Some (Inr xs, ws ! length deps)"
    by (intro map_resolve_chain) auto
  with a have "resolve env containerState (Suc n) token w = Some (call env factory xs (ws ! length deps))"
    by simp
  with a show "scopedResolve env containerState (Suc n) token insts w
        = (case call env factory xs (ws ! length deps) of
             (Inl e, w') \<Rightarrow> Some (Inl e, insts, w')
           | (Inr x, w') \<Rightarrow>
               Some (Inr x,
                     (if registered_scope containerState token = Val (Str ''scoped'')
                      then insts(token \<mapsto> x) else insts),
                     w'))"
    by (simp add: scopedResolve_miss del: resolve.simps split: prod.splits sum.splits)
next
  assume "insts token = None"
  then show "map_option (\<lambda>(r, insts1, w1). (r, w1)) (scopedResolve env containerState n token insts w)
        = resolve env containerState n token w"
    by (auto simp: scopedResolve_miss split: option.splits sum.splits)
next
  assume "scopedResolve env containerState n token insts w = Some (r, insts1, w1) \<and> d \<noteq> token"
  then show "insts1 d = insts d" using scopedResolve_other by blast
qed

lemma scoped_state_first:
  "resolve demo_env scoped_state (Suc (Suc 0)) (Symbol ''factoryS'') (world0\<lparr>next_ref := 2\<rparr>)
     = Some (Inr (instanceS 100), worldS)"
  by (simp add: scoped_state_def demo_state_def demo_env_def world0_def worldS_def instanceS_def repoA_def)

lemma scoped_state_second:
  "resolve demo_env scoped_state (Suc (Suc 0)) (Symbol ''factoryS'') worldS
     = Some (Inr (instanceS 101), worldS\<lparr>invocations := [(2, [repoA]), (2, [repoA])], user := 2\<rparr>)"
  by (simp add: scoped_state_def demo_state_def demo_env_def world0_def worldS_def instanceS_def repoA_def)

lemma scoped_state_scope:
  "registered_scope scoped_state (Symbol ''factoryS'') = Val (Str ''scoped'')"
  by (simp add: scoped_state_def registered_scope_def)

theorem scoped_instances_witness:
  "registered_scope scoped_state (Symbol ''factoryS'') = Val (Str ''scoped'')
   \<and> createScope demo_env scoped_state (Suc (Suc 0))
       (CallScoped (Symbol ''factoryS'') (\<lambda>r1. CallScoped (Symbol ''factoryS'') (\<lambda>r2. Done (r1, r2))))
       (world0\<lparr>next_ref := 2\<rparr>)
     = Some (Inr (Inr (instanceS 100), Inr (instanceS 100)), worldS)
   \<and> createScope demo_env scoped_state (Suc (Suc 0)) (CallScoped (Symbol ''factoryS'') Done) worldS
     = Some (Inr (Inr (instanceS 101)),
             worldS\<lparr>invocations := [(2, [repoA]), (2, [repoA])], user := 2\<rparr>)
   \<and> instanceS 101 \<noteq> instanceS 100
   \<and> run_callback demo_env scoped_state (Suc (Suc 0)) (CallResolve (Symbol ''factoryS'') Done)
       [Symbol ''factoryS'' \<mapsto> instanceS 100] worldS
     = Some (Inr (Inr (instanceS 101)),
             worldS\<lparr>invocations := [(2, [repoA]), (2, [repoA])], user := 2\<rparr>)
   \<and> scopedResolve demo_env scoped_state (Suc (Suc 0)) (Symbol ''factoryS'')
       [Symbol ''factoryS'' \<mapsto> instanceS 100] worldS
     = Some (Inr (instanceS 100), [Symbol ''factoryS'' \<mapsto> instanceS 100], worldS)"
proof -
  note inst = scoped_instances[where env = demo_env and containerState = scoped_state
      and token = "Symbol ''factoryS''" and n = "Suc (Suc 0)"]
  have hyp: "resolve demo_env scoped_state (Suc (Suc 0)) (Symbol ''factoryS'') (world0\<lparr>next_ref := 2\<rparr>)
      = Some (Inr (instanceS 100), worldS) \<and>
      registered_scope scoped_state (Symbol ''factoryS'') = Val (Str ''scoped'')"
    using scoped_state_first scoped_state_scope by simp
  from inst[THEN conjunct2, THEN conjunct1, THEN mp, OF hyp, THEN conjunct2]
  have two: "createScope demo_env scoped_state (Suc (Suc 0))
       (CallScoped (Symbol ''factoryS'') (\<lambda>r1. CallScoped (Symbol ''factoryS'') (\<lambda>r2. Done (r1, r2))))
       (world0\<lparr>next_ref := 2\<rparr>)
     = Some (Inr (Inr (instanceS 100), Inr (instanceS 100)), worldS)" .
  have "createScope demo_env scoped_state (Suc (Suc 0)) (CallScoped (Symbol ''factoryS'') Done) worldS
     = map_option (\<lambda>(r, w'). (Inr r, w'))
         (resolve demo_env scoped_state (Suc (Suc 0)) (Symbol ''factoryS'') worldS)"
    using inst[where w = worldS] by blast
  then have fresh: "createScope demo_env scoped_state (Suc (Suc 0)) (CallScoped (Symbol ''factoryS'') Done) worldS
     = Some (Inr (Inr (instanceS 101)),
             worldS\<lparr>invocations := [(2, [repoA]), (2, [repoA])], user := 2\<rparr>)"
    unfolding scoped_state_second by simp
  have differ: "instanceS 101 \<noteq> instanceS 100" by (simp add: instanceS_def)
  have "run_callback demo_env scoped_state (Suc (Suc 0)) (CallResolve (Symbol ''factoryS'') Done)
       [Symbol ''factoryS'' \<mapsto> instanceS 100] worldS
     = (case resolve demo_env scoped_state (Suc (Suc 0)) (Symbol ''factoryS'') worldS of
          None \<Rightarrow> None
        | Some (r, w') \<Rightarrow> run_callback demo_env scoped_state (Suc (Suc 0)) (Done r)
             [Symbol ''factoryS'' \<mapsto> instanceS 100] w')"
    using inst[where w = worldS and k' = Done and insts = "[Symbol ''factoryS'' \<mapsto> instanceS 100]"]
    by blast
  then have ordinary: "run_callback demo_env scoped_state (Suc (Suc 0)) (CallResolve (Symbol ''factoryS'') Done)
       [Symbol ''factoryS'' \<mapsto> instanceS 100] worldS
     = Some (Inr (Inr (instanceS 101)),
             worldS\<lparr>invocations := [(2, [repoA]), (2, [repoA])], user := 2\<rparr>)"
    unfolding scoped_state_second by simp
  have sr: "scopedResolve demo_env scoped_state (Suc (Suc 0)) (Symbol ''factoryS'') Map.empty
        (world0\<lparr>next_ref := 2\<rparr>)
      = Some (Inr (instanceS 100), [Symbol ''factoryS'' \<mapsto> instanceS 100], worldS)"
    using scoped_state_first scoped_state_scope by (simp add: scopedResolve_def del: resolve.simps)
  have hyp2: "scopedResolve demo_env scoped_state (Suc (Suc 0)) (Symbol ''factoryS'') Map.empty
        (world0\<lparr>next_ref := 2\<rparr>)
      = Some (Inr (instanceS 100), [Symbol ''factoryS'' \<mapsto> instanceS 100], worldS) \<and>
      registered_scope scoped_state (Symbol ''factoryS'') = Val (Str ''scoped'') \<and>
      [Symbol ''factoryS'' \<mapsto> instanceS 100] \<subseteq>\<^sub>m [Symbol ''factoryS'' \<mapsto> instanceS 100]"
    using sr scoped_state_scope by simp
  from inst[THEN conjunct2, THEN conjunct2, THEN conjunct1, THEN mp, OF hyp2]
  have again: "scopedResolve demo_env scoped_state (Suc (Suc 0)) (Symbol ''factoryS'')
       [Symbol ''factoryS'' \<mapsto> instanceS 100] worldS
     = Some (Inr (instanceS 100), [Symbol ''factoryS'' \<mapsto> instanceS 100], worldS)" .
  from scoped_state_scope two fresh differ ordinary again show ?thesis by blast
qed

theorem scoped_dependencies_bypass_cache_witness:
  "scopedResolve demo_env scoped_state (Suc (Suc (Suc 0))) (Symbol ''factoryF'')
       [Symbol ''factoryS'' \<mapsto> instanceS 100] worldS
     = Some (Inr (Obj 102 [(''arg'', Val (instanceS 101))]),
             [Symbol ''factoryS'' \<mapsto> instanceS 100], worldF)
   \<and> instanceS 101 \<noteq> instanceS 100"
proof -
  let ?ob = "Obj 1 [(''dependencies'', Deps [Symbol ''factoryS'']), (''factory'', Val (UserFn 3)),
                (''scope'', Val (Str ''transient''))]"
  let ?w2 = "worldS\<lparr>invocations := [(2, [repoA]), (2, [repoA])], user := 2\<rparr>"
  have hyp: "scoped_state (Symbol ''factoryF'') = Some ?ob \<and>
      get_prop ?ob ''dependencies'' = Inr (Deps [Symbol ''factoryS'']) \<and>
      get_prop ?ob ''factory'' = Inr (Val (UserFn 3)) \<and>
      [Symbol ''factoryS'' \<mapsto> instanceS 100] (Symbol ''factoryF'') = None \<and>
      length [worldS, ?w2] = Suc (length [Symbol ''factoryS'']) \<and>
      length [instanceS 101] = length [Symbol ''factoryS''] \<and> [worldS, ?w2] ! 0 = worldS \<and>
      (\<forall>i<length [Symbol ''factoryS''].
         resolve demo_env scoped_state (Suc (Suc 0)) ([Symbol ''factoryS''] ! i) ([worldS, ?w2] ! i)
           = Some (Inr ([instanceS 101] ! i), [worldS, ?w2] ! Suc i))"
    using scoped_state_second by (simp add: scoped_state_def del: resolve.simps)
  have c: "call demo_env (Val (UserFn 3)) [instanceS 101] ([worldS, ?w2] ! length [Symbol ''factoryS''])
      = (Inr (Obj 102 [(''arg'', Val (instanceS 101))]), worldF)"
    by (simp add: demo_env_def worldS_def worldF_def world0_def)
  have sc: "registered_scope scoped_state (Symbol ''factoryF'') \<noteq> Val (Str ''scoped'')"
    by (simp add: scoped_state_def registered_scope_def)
  from scoped_dependencies_bypass_cache[where env = demo_env and containerState = scoped_state
      and token = "Symbol ''factoryF''" and n = "Suc (Suc 0)" and ob = ?ob
      and deps = "[Symbol ''factoryS'']" and factory = "Val (UserFn 3)"
      and insts = "[Symbol ''factoryS'' \<mapsto> instanceS 100]" and ws = "[worldS, ?w2]"
      and xs = "[instanceS 101]" and w = worldS, THEN conjunct1, THEN mp, OF hyp]
  have "scopedResolve demo_env scoped_state (Suc (Suc (Suc 0))) (Symbol ''factoryF'')
       [Symbol ''factoryS'' \<mapsto> instanceS 100] worldS
     = Some (Inr (Obj 102 [(''arg'', Val (instanceS 101))]),
             [Symbol ''factoryS'' \<mapsto> instanceS 100], worldF)"
    unfolding c using sc by simp
  moreover have "instanceS 101 \<noteq> instanceS 100" by (simp add: instanceS_def)
  ultimately show ?thesis by blast
qed

section \<open>Properties of the bulk operation\<close>

lemma is_entry_token:
  "is_entry v \<Longrightarrow> \<exists>a ps t. v = Obj a ps \<and> get_prop v ''token'' = Inr (Tok t)"
  by (cases v) (auto split: option.splits field.splits)

lemma forEach_install_entries:
  "list_all is_entry vs \<Longrightarrow>
     \<exists>cs1. forEach_install cs vs = Inr cs1 \<and>
       (\<forall>t. cs1 t = (case entry_for t vs of Some v \<Rightarrow> Some v | None \<Rightarrow> cs t))"
proof (induction vs arbitrary: cs)
  case Nil
  then show ?case by simp
next
  case (Cons v vs)
  then obtain a ps t where v: "v = Obj a ps" "get_prop v ''token'' = Inr (Tok t)"
    using is_entry_token by fastforce
  from Cons.prems have "list_all is_entry vs" by simp
  from Cons.IH[OF this, of "cs(t \<mapsto> v)"] obtain cs1 where
    cs1: "forEach_install (cs(t \<mapsto> v)) vs = Inr cs1"
      "\<And>t'. cs1 t' = (case entry_for t' vs of Some x \<Rightarrow> Some x | None \<Rightarrow> (cs(t \<mapsto> v)) t')"
    by blast
  have "forEach_install cs (v # vs) = Inr cs1"
    using v cs1(1) by simp
  moreover have "\<forall>t'. cs1 t' = (case entry_for t' (v # vs) of Some x \<Rightarrow> Some x | None \<Rightarrow> cs t')"
    using v cs1(2) by (auto split: option.splits)
  ultimately show ?case by blast
qed

lemma replaceFactory_each_entries:
  "list_all is_entry vs \<Longrightarrow>
     \<exists>cs2 w'. replaceFactory_each cs vs w = (Inr cs2, w') \<and>
       (\<forall>t. case entry_for t vs of
               Some v \<Rightarrow>
                 (\<exists>a. cs2 t = Some (Obj a (AList.update ''scope'' (Val (Str ''transient'')) (spread v))))
             | None \<Rightarrow> cs2 t = cs t)"
proof (induction vs arbitrary: cs w)
  case Nil
  then show ?case by simp
next
  case (Cons v vs)
  then obtain a ps t where v: "v = Obj a ps" "get_prop v ''token'' = Inr (Tok t)"
    using is_entry_token by fastforce
  let ?ob = "Obj (next_ref w) (AList.update ''scope'' (Val (Str ''transient'')) ps)"
  let ?w1 = "w\<lparr>next_ref := Suc (next_ref w)\<rparr>"
  have step: "replaceFactory cs t v Transient w = (Inr (cs(t \<mapsto> ?ob)), ?w1)"
    using v by (simp add: replaceFactory_object)
  from Cons.prems have "list_all is_entry vs" by simp
  from Cons.IH[OF this, of "cs(t \<mapsto> ?ob)" ?w1] obtain cs2 w' where
    cs2: "replaceFactory_each (cs(t \<mapsto> ?ob)) vs ?w1 = (Inr cs2, w')"
      "\<And>t'. case entry_for t' vs of
               Some x \<Rightarrow>
                 (\<exists>a. cs2 t' = Some (Obj a (AList.update ''scope'' (Val (Str ''transient'')) (spread x))))
             | None \<Rightarrow> cs2 t' = (cs(t \<mapsto> ?ob)) t'"
    by blast
  have "replaceFactory_each cs (v # vs) w = (Inr cs2, w')"
    using v step cs2(1) by simp
  moreover have "\<forall>t'. case entry_for t' (v # vs) of
               Some x \<Rightarrow>
                 (\<exists>a. cs2 t' = Some (Obj a (AList.update ''scope'' (Val (Str ''transient'')) (spread x))))
             | None \<Rightarrow> cs2 t' = cs t'"
  proof
    fix t'
    from cs2(2)[of t'] v show "case entry_for t' (v # vs) of
               Some x \<Rightarrow>
                 (\<exists>a. cs2 t' = Some (Obj a (AList.update ''scope'' (Val (Str ''transient'')) (spread x))))
             | None \<Rightarrow> cs2 t' = cs t'"
      by (auto split: option.splits)
  qed
  ultimately show ?case by blast
qed

text \<open>
  Claim C9 says that \<^verbatim>\<open>replaceFactoryArray\<close> produces the state that \<^verbatim>\<open>replaceFactory\<close>,
  called once per descriptor, produces. \<^verbatim>\<open>replaceFactoryArray\<close> stores each descriptor as
  it is given; \<^verbatim>\<open>replaceFactory\<close> stores a new object, the descriptor's properties with
  \<^verbatim>\<open>scope\<close> set. For a single descriptor the two states differ at its token.
\<close>

theorem replaceFactoryArray_counterexample:
  "replaceFactoryArray demo_state [entryD] = Inr (demo_state(Symbol ''factoryD'' \<mapsto> entryD))
   \<and> replaceFactory demo_state (Symbol ''factoryD'') entryD Transient world0
     = (Inr (demo_state(Symbol ''factoryD'' \<mapsto>
          Obj 0 [(''token'', Tok (Symbol ''factoryD'')), (''dependencies'', Deps [Symbol ''factoryC'']),
                 (''factory'', Val (UserFn 5)), (''scope'', Val (Str ''transient''))])),
        world0\<lparr>next_ref := 1\<rparr>)
   \<and> (demo_state(Symbol ''factoryD'' \<mapsto> entryD)) (Symbol ''factoryD'')
     \<noteq> (demo_state(Symbol ''factoryD'' \<mapsto>
          Obj 0 [(''token'', Tok (Symbol ''factoryD'')), (''dependencies'', Deps [Symbol ''factoryC'']),
                 (''factory'', Val (UserFn 5)), (''scope'', Val (Str ''transient''))])) (Symbol ''factoryD'')"
  by (simp add: replaceFactoryArray_def replaceFactory_object entryD_def world0_def)

text \<open>
  Claim C9, amended. For every list of descriptors (objects with a token), on every state
  and without any check of duplicates or dependencies, \<^verbatim>\<open>replaceFactoryArray\<close> succeeds, and
  so does \<^verbatim>\<open>replaceFactory\<close> called once per descriptor in list order. The two states have
  the same keys and agree with the starting state outside the list's tokens; under a token
  of the list the first holds the last descriptor given for it, as it is, and the second
  holds a new object with the properties of that same descriptor and \<^verbatim>\<open>scope\<close> set to
  \<^verbatim>\<open>"transient"\<close>.
\<close>

theorem replaceFactoryArray_installs:
  "list_all is_entry vs \<Longrightarrow>
     (\<exists>cs1. replaceFactoryArray containerState vs = Inr cs1 \<and>
        (\<forall>t. cs1 t = (case entry_for t vs of Some v \<Rightarrow> Some v | None \<Rightarrow> containerState t)))
     \<and> (\<exists>cs2 w'. replaceFactory_each containerState vs w = (Inr cs2, w') \<and>
        (\<forall>t. case entry_for t vs of
                Some v \<Rightarrow>
                  (\<exists>a. cs2 t = Some (Obj a (AList.update ''scope'' (Val (Str ''transient'')) (spread v))))
              | None \<Rightarrow> cs2 t = containerState t))"
  using forEach_install_entries[of vs containerState] replaceFactory_each_entries[of vs containerState w]
  by (simp add: replaceFactoryArray_def)

theorem replaceFactoryArray_installs_witness:
  "(\<exists>cs1. replaceFactoryArray demo_state [entryC, entryD] = Inr cs1 \<and>
        (\<forall>t. cs1 t = (case entry_for t [entryC, entryD] of Some v \<Rightarrow> Some v | None \<Rightarrow> demo_state t)))
   \<and> (\<exists>cs2 w'. replaceFactory_each demo_state [entryC, entryD] world0 = (Inr cs2, w') \<and>
        (\<forall>t. case entry_for t [entryC, entryD] of
                Some v \<Rightarrow>
                  (\<exists>a. cs2 t = Some (Obj a (AList.update ''scope'' (Val (Str ''transient'')) (spread v))))
              | None \<Rightarrow> cs2 t = demo_state t))
   \<and> replaceFactoryArray demo_state [entryC, entryD]
     = Inr (demo_state(Symbol ''factoryC'' \<mapsto> entryC, Symbol ''factoryD'' \<mapsto> entryD))
   \<and> entry_for (Symbol ''factoryC'') [entryC, entryD] = Some entryC
   \<and> entry_for (Symbol ''RepoA'') [entryC, entryD] = None"
proof -
  have "list_all is_entry [entryC, entryD]"
    by (simp add: entryC_def entryD_def)
  from replaceFactoryArray_installs[OF this, of demo_state world0]
  show ?thesis
    by (simp add: replaceFactoryArray_def entryC_def entryD_def)
qed

section \<open>Properties of the builder's operations on the store\<close>













end
